theory Spec2Isabelle
  imports Complex_Main "HOL-Library.Product_Lexorder"
begin

section \<open>Python values and text\<close>

text \<open>
  The scripts work on loosely typed JSON documents. A Python value is modelled by
  \<open>pyval\<close>; a \<open>dict\<close> is an association list read with \<open>map_of\<close> (JSON objects
  with distinct keys), a \<open>float\<close> is a real number (no rounding, no NaN, no infinity),
  an \<open>int\<close> is unbounded. A character is a code point below 256. The \<open>OverflowError\<close>
  that \<open>build_overview_rows\<close> meets when a number leaves the range of a float or of a C
  \<open>int\<close> is modelled by tests of its own, next to the functions that raise it.
\<close>

datatype pyval =
    PNone
  | PBool bool
  | PInt int
  | PFloat real
  | PStr string
  | PList "pyval list"
  | PDict "(string \<times> pyval) list"

text \<open>\<open>d.get(key)\<close>: the value, or \<open>None\<close> when the key is missing.\<close>

definition py_get :: "(string \<times> pyval) list \<Rightarrow> string \<Rightarrow> pyval" where
  "py_get d k = (case map_of d k of None \<Rightarrow> PNone | Some v \<Rightarrow> v)"

text \<open>\<open>isinstance(v, (int, float))\<close> and \<open>isinstance(v, int)\<close>: \<open>bool\<close> is a subclass
  of \<open>int\<close> in Python.\<close>

fun is_number :: "pyval \<Rightarrow> bool" where
  "is_number (PBool _) = True"
| "is_number (PInt _) = True"
| "is_number (PFloat _) = True"
| "is_number _ = False"

fun is_int :: "pyval \<Rightarrow> bool" where
  "is_int (PBool _) = True"
| "is_int (PInt _) = True"
| "is_int _ = False"

text \<open>\<open>float(v)\<close> and the integer value of \<open>v\<close>, for a \<open>v\<close> that passed the checks above.\<close>

fun as_float :: "pyval \<Rightarrow> real" where
  "as_float (PBool b) = (if b then 1 else 0)"
| "as_float (PInt i) = real_of_int i"
| "as_float (PFloat r) = r"
| "as_float _ = 0"

fun as_int :: "pyval \<Rightarrow> int" where
  "as_int (PBool b) = (if b then 1 else 0)"
| "as_int (PInt i) = i"
| "as_int _ = 0"

text \<open>Truthiness, as \<open>not v\<close> and \<open>v or w\<close> test it.\<close>

fun truthy :: "pyval \<Rightarrow> bool" where
  "truthy PNone = False"
| "truthy (PBool b) = b"
| "truthy (PInt i) = (i \<noteq> 0)"
| "truthy (PFloat r) = (r \<noteq> 0)"
| "truthy (PStr s) = (s \<noteq> [])"
| "truthy (PList xs) = (xs \<noteq> [])"
| "truthy (PDict d) = (d \<noteq> [])"

subsection \<open>Characters\<close>

definition is_digit :: "char \<Rightarrow> bool" where
  "is_digit c = (48 \<le> (of_char c :: nat) \<and> (of_char c :: nat) \<le> 57)"

definition digit_val :: "char \<Rightarrow> nat" where
  "digit_val c = (of_char c :: nat) - 48"

definition digit_char :: "nat \<Rightarrow> char" where
  "digit_char d = char_of (48 + d)"

text \<open>\<open>str.isspace\<close> below code point 256: tab to carriage return, the four
  separators 28..31, space, NEL and the no-break space.\<close>

definition is_space :: "char \<Rightarrow> bool" where
  "is_space c = ((of_char c :: nat) \<in> {9, 10, 11, 12, 13, 28, 29, 30, 31, 32, 133, 160})"

definition is_alpha_ascii :: "char \<Rightarrow> bool" where
  "is_alpha_ascii c = (let n = (of_char c :: nat) in (65 \<le> n \<and> n \<le> 90) \<or> (97 \<le> n \<and> n \<le> 122))"

text \<open>\<open>str.lower\<close> on one character: A..Z, and the Latin-1 capitals 192..222
  but the multiplication sign 215.\<close>

definition lower_char :: "char \<Rightarrow> char" where
  "lower_char c = (let n = (of_char c :: nat) in
     if (65 \<le> n \<and> n \<le> 90) \<or> (192 \<le> n \<and> n \<le> 222 \<and> n \<noteq> 215)
     then char_of (n + 32) else c)"

definition py_lower :: "string \<Rightarrow> string" where
  "py_lower s = map lower_char s"

subsection \<open>Substring test\<close>

text \<open>\<open>sub in text\<close>.\<close>

fun starts_with :: "string \<Rightarrow> string \<Rightarrow> bool" where
  "starts_with [] text = True"
| "starts_with (c # cs) [] = False"
| "starts_with (c # cs) (t # ts) = (c = t \<and> starts_with cs ts)"

fun py_in :: "string \<Rightarrow> string \<Rightarrow> bool" where
  "py_in sub [] = (sub = [])"
| "py_in sub (t # ts) = (starts_with sub (t # ts) \<or> py_in sub ts)"

section \<open>Category of an instrument\<close>

text \<open>\<open>export_etf_csv.classify_category\<close>: the text is
  \<open>f"{name or ''} {axis or ''}".lower()\<close>, name and axis joined by one space.\<close>

definition or_empty :: "string option \<Rightarrow> string" where
  "or_empty v = (case v of None \<Rightarrow> [] | Some s \<Rightarrow> s)"

definition classify_category :: "string option \<Rightarrow> string option \<Rightarrow> string" where
  "classify_category name axis =
     (let text = py_lower (or_empty name @ '' '' @ or_empty axis) in
      if py_in ''core'' text then ''Core''
      else if py_in ''hedg'' text then ''Hedge''
      else ''Satellite'')"

section \<open>Return analytics\<close>

subsection \<open>Text to integer\<close>

text \<open>\<open>str.strip()\<close>.\<close>

definition py_strip :: "string \<Rightarrow> string" where
  "py_strip s = rev (dropWhile is_space (rev (dropWhile is_space s)))"

definition digits_value :: "string \<Rightarrow> nat" where
  "digits_value s = foldl (\<lambda>a c. 10 * a + digit_val c) 0 s"

text \<open>The digits of a decimal integer literal after its sign: digits, with single
  underscores allowed between two digits.\<close>

fun int_body_ok :: "string \<Rightarrow> bool" where
  "int_body_ok [] = False"
| "int_body_ok [c] = is_digit c"
| "int_body_ok (c # d # r) =
     (is_digit c \<and> (if d = CHR ''_'' then int_body_ok r else int_body_ok (d # r)))"

definition int_body_value :: "string \<Rightarrow> int option" where
  "int_body_value b =
     (if int_body_ok b then Some (int (digits_value (filter (\<lambda>x. x \<noteq> CHR ''_'') b))) else None)"

text \<open>\<open>int(s)\<close> for a string: surrounding whitespace is dropped, then an optional sign
  and the digits; \<open>None\<close> stands for \<open>ValueError\<close>.\<close>

definition py_int :: "string \<Rightarrow> int option" where
  "py_int s =
     (case py_strip s of
        [] \<Rightarrow> None
      | c # r \<Rightarrow>
          if c = CHR ''-'' then map_option uminus (int_body_value r)
          else if c = CHR ''+'' then int_body_value r
          else int_body_value (c # r))"

text \<open>\<open>int(str(v))\<close>: the text of \<open>None\<close>, of a \<open>bool\<close>, of a \<open>float\<close> (it has a point, an
  exponent, \<open>inf\<close> or \<open>nan\<close>), of a list and of a dict is never an integer literal.\<close>

fun py_int_str :: "pyval \<Rightarrow> int option" where
  "py_int_str (PInt i) = Some i"
| "py_int_str (PStr s) = py_int s"
| "py_int_str _ = None"

text \<open>\<open>int(str(v).strip())\<close>, as the scraper writes it.\<close>

fun py_int_str_strip :: "pyval \<Rightarrow> int option" where
  "py_int_str_strip (PInt i) = Some i"
| "py_int_str_strip (PStr s) = py_int (py_strip s)"
| "py_int_str_strip _ = None"

subsection \<open>Compound annual growth rate of a grid (export_etf_csv)\<close>

text \<open>The loop of \<open>compute_cagr_from_heatmap\<close> that collects the returns: every row
  that is a dict with a numeric \<open>return_pct\<close>.\<close>

fun collect_returns :: "pyval list \<Rightarrow> real list" where
  "collect_returns [] = []"
| "collect_returns (row # rest) =
     (case row of
        PDict d \<Rightarrow>
          (let ret = py_get d ''return_pct'' in
           if is_number ret then as_float ret # collect_returns rest
           else collect_returns rest)
      | _ \<Rightarrow> collect_returns rest)"

text \<open>\<open>compounded = 1.0; for r in returns: compounded *= 1.0 + (r / 100.0)\<close>.\<close>

definition compound :: "real list \<Rightarrow> real" where
  "compound returns = fold (\<lambda>r compounded. compounded * (1 + r / 100)) returns 1"

text \<open>\<open>math.pow\<close> is applied to a positive base only, where it is \<open>powr\<close>.\<close>

definition compute_cagr_from_heatmap :: "pyval \<Rightarrow> real option" where
  "compute_cagr_from_heatmap heatmap =
     (case heatmap of
        PDict h \<Rightarrow>
          (case py_get h ''values'' of
             PList vals \<Rightarrow>
               if vals = [] then None
               else
                 (let returns = collect_returns vals in
                  if returns = [] then None
                  else
                    (let compounded = compound returns in
                     if compounded \<le> 0 then None
                     else
                       (let months = length returns;
                            cagr = compounded powr (12 / real months) - 1
                        in Some (cagr * 100))))
           | _ \<Rightarrow> None)
      | _ \<Rightarrow> None)"

subsection \<open>Compound annual growth rate of a grid (scrape_justetf)\<close>

text \<open>The scraper's own \<open>compute_cagr_from_heatmap\<close> keeps a row only when it is a
  dict whose \<open>month_index\<close> is an int, whose \<open>return_pct\<close> is numeric and whose year
  reads as an integer, and sorts the points by (year, month) before compounding.\<close>

fun scrape_points :: "pyval list \<Rightarrow> (int \<times> int \<times> real) list" where
  "scrape_points [] = []"
| "scrape_points (row # rest) =
     (case row of
        PDict d \<Rightarrow>
          (let year_v = (case map_of d ''year'' of None \<Rightarrow> PStr [] | Some v \<Rightarrow> v);
               month_idx = py_get d ''month_index'';
               ret = py_get d ''return_pct''
           in if \<not> is_int month_idx then scrape_points rest
              else if \<not> is_number ret then scrape_points rest
              else (case py_int_str_strip year_v of
                      None \<Rightarrow> scrape_points rest
                    | Some year_int \<Rightarrow>
                        (year_int, as_int month_idx, as_float ret) # scrape_points rest))
      | _ \<Rightarrow> scrape_points rest)"

definition scrape_compute_cagr_from_heatmap :: "(string \<times> pyval) list option \<Rightarrow> real option" where
  "scrape_compute_cagr_from_heatmap heatmap =
     (case heatmap of
        None \<Rightarrow> None
      | Some h \<Rightarrow>
          if h = [] then None
          else
            (case py_get h ''values'' of
               PList raw_values \<Rightarrow>
                 if raw_values = [] then None
                 else
                   (let points = scrape_points raw_values in
                    if points = [] then None
                    else
                      (let sorted_points = sort_key (\<lambda>x. (fst x, fst (snd x))) points;
                           compounded = compound (map (\<lambda>x. snd (snd x)) sorted_points);
                           months_count = length sorted_points
                       in if months_count \<le> 0 \<or> compounded \<le> 0 then None
                          else Some ((compounded powr (12 / real months_count) - 1) * 100)))
             | _ \<Rightarrow> None))"

subsection \<open>Yearly returns of a grid (export_etf_csv)\<close>

text \<open>\<open>by_year.setdefault(year, []).append(p)\<close> on a dict kept in insertion order.\<close>

definition setdefault_append ::
  "(int \<times> (int \<times> real) list) list \<Rightarrow> int \<Rightarrow> int \<times> real \<Rightarrow> (int \<times> (int \<times> real) list) list" where
  "setdefault_append by_year year p =
     (if year \<in> set (map fst by_year)
      then map (\<lambda>(y, ps). if y = year then (y, ps @ [p]) else (y, ps)) by_year
      else by_year @ [(year, [p])])"

text \<open>The first loop of \<open>compute_yearly_returns_from_heatmap\<close>.\<close>

fun group_by_year ::
  "pyval list \<Rightarrow> (int \<times> (int \<times> real) list) list \<Rightarrow> (int \<times> (int \<times> real) list) list" where
  "group_by_year [] by_year = by_year"
| "group_by_year (row # rest) by_year =
     (case row of
        PDict d \<Rightarrow>
          (case py_int_str (py_get d ''year'') of
             None \<Rightarrow> group_by_year rest by_year
           | Some year \<Rightarrow>
               (let month_idx = py_get d ''month_index'';
                    ret = py_get d ''return_pct''
                in if \<not> is_int month_idx \<or> \<not> is_number ret then group_by_year rest by_year
                   else group_by_year rest
                          (setdefault_append by_year year (as_int month_idx, as_float ret))))
      | _ \<Rightarrow> group_by_year rest by_year)"

definition year_points :: "(int \<times> (int \<times> real) list) list \<Rightarrow> int \<Rightarrow> (int \<times> real) list" where
  "year_points by_year year = (case map_of by_year year of None \<Rightarrow> [] | Some ps \<Rightarrow> ps)"

definition compute_yearly_returns_from_heatmap :: "pyval \<Rightarrow> real list" where
  "compute_yearly_returns_from_heatmap heatmap =
     (case heatmap of
        PDict h \<Rightarrow>
          (case py_get h ''values'' of
             PList vals \<Rightarrow>
               (let by_year = group_by_year vals [] in
                map (\<lambda>year.
                       (compound (map snd (sort_key fst (year_points by_year year))) - 1) * 100)
                    (sort (map fst by_year)))
           | _ \<Rightarrow> [])
      | _ \<Rightarrow> [])"

text \<open>\<open>build_overview_rows\<close>, lines 297 and 298: the number of negative years and
  the worst year. \<open>min\<close> of a list keeps the first of equal values.\<close>

definition negative_year_count :: "real list \<Rightarrow> nat" where
  "negative_year_count yearly_returns = sum_list (map (\<lambda>r. 1) (filter (\<lambda>r. r < 0) yearly_returns))"

fun py_min :: "real list \<Rightarrow> real" where
  "py_min [] = 0"
| "py_min (x # xs) = fold (\<lambda>y m. if y < m then y else m) xs x"

definition worst_year :: "real list \<Rightarrow> real option" where
  "worst_year yearly_returns = (if yearly_returns \<noteq> [] then Some (py_min yearly_returns) else None)"




section \<open>Number formatting and parsing (export_etf_csv)\<close>

subsection \<open>fmt_number\<close>

text \<open>\<open>round(x, ndigits)\<close> rounds to the nearest multiple of \<open>10^-ndigits\<close>, a tie going
  to the even one. \<open>round_half_even\<close> is the rounded value scaled by \<open>10^ndigits\<close>.\<close>

definition round_half_even :: "real \<Rightarrow> int" where
  "round_half_even x =
     (let f = \<lfloor>x\<rfloor>; d = x - of_int f in
      if d < 1 / 2 then f else if d > 1 / 2 then f + 1 else if even f then f else f + 1)"

definition py_round :: "real \<Rightarrow> nat \<Rightarrow> real" where
  "py_round x ndigits = of_int (round_half_even (x * 10 ^ ndigits)) / 10 ^ ndigits"

text \<open>\<open>str(n)\<close> for a natural number.\<close>

fun show_nat :: "nat \<Rightarrow> string" where
  "show_nat n = (if n < 10 then [digit_char n] else show_nat (n div 10) @ [digit_char (n mod 10)])"

declare show_nat.simps [simp del]

definition show_int :: "int \<Rightarrow> string" where
  "show_int i = (if i < 0 then CHR ''-'' # show_nat (nat (- i)) else show_nat (nat i))"

definition zero_pad :: "nat \<Rightarrow> string \<Rightarrow> string" where
  "zero_pad w s = replicate (w - length s) CHR ''0'' @ s"

text \<open>\<open>f"{rounded:.{ndigits}f}"\<close> for the value \<open>k / 10^ndigits\<close> with sign \<open>neg\<close>: the
  integer part, and a point and \<open>ndigits\<close> decimals when \<open>ndigits\<close> is positive. The
  sign is the sign of the unrounded value, as \<open>round\<close> keeps it (\<open>-0.001\<close> rounds to
  \<open>-0.0\<close>, printed \<open>-0.00\<close>).\<close>

definition fixed_text :: "bool \<Rightarrow> nat \<Rightarrow> nat \<Rightarrow> string" where
  "fixed_text neg k ndigits =
     (if neg then ''-'' else []) @ show_nat (k div 10 ^ ndigits) @
     (if ndigits = 0 then [] else CHR ''.'' # zero_pad ndigits (show_nat (k mod 10 ^ ndigits)))"

text \<open>\<open>s.rstrip(c)\<close> for a single character.\<close>

definition rstrip_char :: "char \<Rightarrow> string \<Rightarrow> string" where
  "rstrip_char c s = rev (dropWhile (\<lambda>x. x = c) (rev s))"

text \<open>\<open>s.replace(a, b)\<close> for single characters, and \<open>s.replace(a, "")\<close>.\<close>

definition replace_char :: "char \<Rightarrow> char \<Rightarrow> string \<Rightarrow> string" where
  "replace_char a b s = map (\<lambda>c. if c = a then b else c) s"

definition remove_char :: "char \<Rightarrow> string \<Rightarrow> string" where
  "remove_char a s = filter (\<lambda>c. c \<noteq> a) s"

text \<open>\<open>fmt_number\<close>: a real number is never NaN or infinite, so that branch has no
  counterpart here.\<close>

definition fmt_number :: "real option \<Rightarrow> nat \<Rightarrow> string" where
  "fmt_number v ndigits =
     (case v of
        None \<Rightarrow> []
      | Some x \<Rightarrow>
          (let k = nat \<bar>round_half_even (x * 10 ^ ndigits)\<bar>;
               text = rstrip_char CHR ''.'' (rstrip_char CHR ''0'' (fixed_text (x < 0) k ndigits))
           in replace_char CHR ''.'' CHR '','' text))"

subsection \<open>clean_spaces\<close>

text \<open>\<open>re.sub(r"\s+", " ", s)\<close>: every run of whitespace becomes one space.\<close>

function collapse_spaces :: "string \<Rightarrow> string" where
  "collapse_spaces [] = []"
| "collapse_spaces (c # cs) =
     (if is_space c then CHR '' '' # collapse_spaces (dropWhile is_space cs)
      else c # collapse_spaces cs)"
  by pat_completeness auto
termination
  by (relation "measure length") (auto simp: length_dropWhile_le less_Suc_eq_le)

definition clean_spaces :: "string \<Rightarrow> string" where
  "clean_spaces v = py_strip (collapse_spaces (replace_char (CHR 0xA0) CHR '' '' v))"

subsection \<open>Decimal text to float\<close>

text \<open>\<open>float(s)\<close> for a text made of digits, points and signs, which is all its
  callers pass: an optional sign, then digits with at most one point and at least
  one digit. \<open>None\<close> stands for \<open>ValueError\<close>.\<close>

definition unsigned_float :: "string \<Rightarrow> real option" where
  "unsigned_float b =
     (let ip = takeWhile is_digit b; rest = dropWhile is_digit b in
      case rest of
        [] \<Rightarrow> if ip = [] then None else Some (real (digits_value ip))
      | c # fp \<Rightarrow>
          if c = CHR ''.'' \<and> list_all is_digit fp \<and> (ip \<noteq> [] \<or> fp \<noteq> [])
          then Some (real (digits_value ip) + real (digits_value fp) / 10 ^ length fp)
          else None)"

definition py_float :: "string \<Rightarrow> real option" where
  "py_float s =
     (case s of
        [] \<Rightarrow> None
      | c # r \<Rightarrow>
          if c = CHR ''-'' then map_option uminus (unsigned_float r)
          else if c = CHR ''+'' then unsigned_float r
          else unsigned_float (c # r))"

subsection \<open>parse_percent\<close>

text \<open>\<open>text.replace("p.a.", "")\<close>.\<close>

fun remove_pa :: "string \<Rightarrow> string" where
  "remove_pa (a # b # c # d # r) =
     (if [a, b, c, d] = ''p.a.'' then remove_pa r else a # remove_pa (b # c # d # r))"
| "remove_pa s = s"

text \<open>The match of \<open>\d+(?:[\.,]\d+)?\<close> at the start of a text that starts with a
  digit: all the digits, then a point or comma and all the digits after it when a
  digit follows the separator.\<close>

definition number_at :: "string \<Rightarrow> string" where
  "number_at s =
     (let ip = takeWhile is_digit s in
      case dropWhile is_digit s of
        [] \<Rightarrow> ip
      | sep # r \<Rightarrow>
          (case r of
             [] \<Rightarrow> ip
           | d # _ \<Rightarrow>
               if (sep = CHR ''.'' \<or> sep = CHR '','') \<and> is_digit d
               then ip @ sep # takeWhile is_digit r
               else ip))"

text \<open>\<open>re.search(r"-?\d+(?:[\.,]\d+)?", text)\<close>: the leftmost position where a digit,
  or a minus sign and a digit, starts.\<close>

fun search_number :: "string \<Rightarrow> string option" where
  "search_number [] = None"
| "search_number (c # cs) =
     (if c = CHR ''-'' \<and> (case cs of [] \<Rightarrow> False | d # _ \<Rightarrow> is_digit d)
      then Some (c # number_at cs)
      else if is_digit c then Some (number_at (c # cs))
      else search_number cs)"

definition parse_percent :: "string option \<Rightarrow> real option" where
  "parse_percent value =
     (case value of
        None \<Rightarrow> None
      | Some v \<Rightarrow>
          if v = [] then None
          else
            (let text = remove_pa (remove_char CHR ''%'' (clean_spaces v));
                 text = remove_char CHR ''+'' text
             in case search_number text of
                  None \<Rightarrow> None
                | Some m \<Rightarrow> py_float (replace_char CHR '','' CHR ''.'' m)))"

subsection \<open>parse_aum_meur\<close>

text \<open>The characters of \<open>[\d\s.,]\<close>.\<close>

definition aum_char :: "char \<Rightarrow> bool" where
  "aum_char c = (is_digit c \<or> is_space c \<or> c = CHR ''.'' \<or> c = CHR '','')"

text \<open>\<open>re.search(r"(\d[\d\s.,]*)\s*([A-Za-z]+)?", text)\<close> starts at the leftmost digit;
  the first group takes every following character of its class, the second the
  letters right after it. Units: \<open>mrd\<close>, \<open>bn\<close>, \<open>b\<close>, \<open>md\<close> scale by 1000, \<open>k\<close> and
  \<open>mille\<close> by 1/1000.\<close>

definition parse_aum_meur :: "string option \<Rightarrow> real option" where
  "parse_aum_meur value =
     (case value of
        None \<Rightarrow> None
      | Some v \<Rightarrow>
          if v = [] then None
          else
            (case dropWhile (\<lambda>c. \<not> is_digit c) (clean_spaces v) of
               [] \<Rightarrow> None
             | d # rest \<Rightarrow>
                 (let group1 = d # takeWhile aum_char rest;
                      group2 = takeWhile is_alpha_ascii (dropWhile aum_char rest);
                      number_raw = replace_char CHR '','' CHR ''.'' (remove_char CHR '' '' group1)
                  in case py_float number_raw of
                       None \<Rightarrow> None
                     | Some number \<Rightarrow>
                         (let unit = py_lower group2 in
                          if unit \<in> {''mrd'', ''bn'', ''b'', ''md''} then Some (number * 1000)
                          else if unit \<in> {''k'', ''mille''} then Some (number / 1000)
                          else Some number))))"

section \<open>Dates\<close>

text \<open>\<open>datetime.date\<close>: \<open>date_new\<close> is the constructor called with a year that fits a C
  \<open>int\<close>, \<open>None\<close> standing for its \<open>ValueError\<close>; \<open>toordinal\<close> counts days from 1 January of
  year 1, as the library does, and \<open>(a - b).days\<close> is the difference of the ordinals.\<close>

datatype date = Date (date_year: int) (date_month: int) (date_day: int)

definition is_leap :: "int \<Rightarrow> bool" where
  "is_leap y = (y mod 4 = 0 \<and> (y mod 100 \<noteq> 0 \<or> y mod 400 = 0))"

definition days_in_month :: "int \<Rightarrow> int \<Rightarrow> int" where
  "days_in_month y m =
     (if m = 2 then (if is_leap y then 29 else 28)
      else if m = 4 \<or> m = 6 \<or> m = 9 \<or> m = 11 then 30 else 31)"

definition date_new :: "int \<Rightarrow> int \<Rightarrow> int \<Rightarrow> date option" where
  "date_new y m d =
     (if 1 \<le> y \<and> y \<le> 9999 \<and> 1 \<le> m \<and> m \<le> 12 \<and> 1 \<le> d \<and> d \<le> days_in_month y m
      then Some (Date y m d) else None)"

definition days_before_year :: "int \<Rightarrow> int" where
  "days_before_year y = (let p = y - 1 in p * 365 + p div 4 - p div 100 + p div 400)"

definition days_before_month :: "int \<Rightarrow> int \<Rightarrow> int" where
  "days_before_month y m = sum_list (map (days_in_month y) [1..m - 1])"

definition toordinal :: "date \<Rightarrow> int" where
  "toordinal dt = days_before_year (date_year dt) + days_before_month (date_year dt) (date_month dt)
                    + date_day dt"

definition date_diff_days :: "date \<Rightarrow> date \<Rightarrow> int" where
  "date_diff_days a b = toordinal a - toordinal b"

section \<open>Projection sheet (export_etf_csv)\<close>

subsection \<open>Text of values\<close>

text \<open>\<open>str(v)\<close>. The text of a float, of a list and of a dict is not computed by this
  model: it is the parameter \<open>repr_other\<close>.\<close>

fun py_str :: "(pyval \<Rightarrow> string) \<Rightarrow> pyval \<Rightarrow> string" where
  "py_str repr_other PNone = ''None''"
| "py_str repr_other (PBool b) = (if b then ''True'' else ''False'')"
| "py_str repr_other (PInt i) = show_int i"
| "py_str repr_other (PStr s) = s"
| "py_str repr_other v = repr_other v"

text \<open>\<open>excel_col_name\<close>: the loop \<open>while n > 0: n, rem = divmod(n - 1, 26);
  result = chr(65 + rem) + result\<close>.\<close>

function excel_col_loop :: "nat \<Rightarrow> string \<Rightarrow> string" where
  "excel_col_loop n result =
     (if n > 0 then excel_col_loop ((n - 1) div 26) (char_of (65 + (n - 1) mod 26) # result)
      else result)"
  by pat_completeness auto
termination
  by (relation "measure fst") (auto simp: div_le_dividend less_Suc_eq_le intro: le_less_trans)

declare excel_col_loop.simps [simp del]

definition excel_col_name :: "nat \<Rightarrow> string" where
  "excel_col_name index_one_based = excel_col_loop index_one_based []"

subsection \<open>Rows of the overview\<close>

text \<open>A row built by \<open>build_overview_rows\<close>, with the columns that the properties
  below speak of and the columns whose computation can raise. The launch date is kept
  as a date (its text is \<open>strftime("%d/%m/%Y")\<close>, or the empty text). The other columns
  (ticker, index name, currency, replication, distribution, domicile, provider) are
  left out: they are copied from the document, looked up in the ticker map, or
  searched in the description by a pattern, and raise nothing.\<close>

record overview_row =
  ISIN :: string
  Nom_ETF :: pyval
  Axe_investissement :: pyval
  Categorie :: string
  TER :: "real option"
  AUM :: "real option"
  Date_lancement :: "date option"
  Age_du_fonds :: "int option"
  Volatilite :: "real option"
  CAGR :: "real option"
  Nb_annees_negatives :: "nat option"
  Pire_annee :: "real option"

subsection \<open>The matrix of cells\<close>

datatype error = IndexError | AttributeError | OverflowError

type_synonym matrix = "string list list"

definition blank_row :: "nat \<Rightarrow> string list" where
  "blank_row col_count = replicate col_count []"

text \<open>\<open>ensure_row\<close>: \<open>while len(matrix) <= idx: matrix.append(blank_row())\<close>.\<close>

function ensure_row :: "nat \<Rightarrow> matrix \<Rightarrow> nat \<Rightarrow> matrix" where
  "ensure_row col_count m idx =
     (if length m \<le> idx then ensure_row col_count (m @ [blank_row col_count]) idx else m)"
  by pat_completeness auto
termination
  by (relation "measure (\<lambda>(col_count, m, idx). Suc idx - length m)") auto

declare ensure_row.simps [simp del]

text \<open>\<open>set_cell\<close>: \<open>matrix[r][c] = value\<close> raises \<open>IndexError\<close> when the row has no
  column \<open>c\<close>.\<close>

definition set_cell :: "nat \<Rightarrow> matrix \<Rightarrow> nat \<Rightarrow> nat \<Rightarrow> string \<Rightarrow> error + matrix" where
  "set_cell col_count m r c v =
     (let m' = ensure_row col_count m r in
      if c < length (m' ! r) then Inr (m'[r := (m' ! r)[c := v]]) else Inl IndexError)"

text \<open>The calls of \<open>set_cell\<close> of a run, in program order: (row, column, value).\<close>

type_synonym cell_write = "nat \<times> nat \<times> string"

fun set_cells :: "nat \<Rightarrow> cell_write list \<Rightarrow> matrix \<Rightarrow> error + matrix" where
  "set_cells col_count [] m = Inr m"
| "set_cells col_count ((r, c, v) # ws) m =
     (case set_cell col_count m r c v of
        Inl e \<Rightarrow> Inl e
      | Inr m' \<Rightarrow> set_cells col_count ws m')"

subsection \<open>write_projection_csv\<close>

text \<open>Lines 409 to 424: the parameter block and the labels of the rate block.\<close>

definition parameter_writes :: "nat \<Rightarrow> real \<Rightarrow> real \<Rightarrow> real \<Rightarrow> cell_write list" where
  "parameter_writes years capital_initial inflation dca_mensuel =
     [(0, 0, ''Parametre''), (0, 1, ''Valeur''),
      (1, 0, ''Capital initial''), (1, 1, fmt_number (Some capital_initial) 2),
      (2, 0, ''Inflation annuelle''), (2, 1, fmt_number (Some inflation) 6),
      (3, 0, ''DCA mensuel''), (3, 1, fmt_number (Some dca_mensuel) 2),
      (4, 0, ''Horizon (annees)''), (4, 1, show_nat years),
      (6, 0, ''ETF''), (7, 0, ''ISIN''), (8, 0, ''CAGR brut annuel''),
      (9, 0, ''TER annuel''), (10, 0, ''Rendement net reel annuel'')]"

text \<open>Lines 426 to 437: the rate block, one column per instrument. A \<open>CAGR (%)\<close> or
  \<open>TER (%)\<close> that is not a number is replaced by \<open>0.0\<close>. \<open>rate_column\<close> is the body of
  the loop.\<close>

definition rate_column :: "(pyval \<Rightarrow> string) \<Rightarrow> nat \<Rightarrow> overview_row \<Rightarrow> cell_write list" where
  "rate_column repr_other idx row =
     (let col = excel_col_name idx;
          etf_name = py_str repr_other (Nom_ETF row);
          isin = ISIN row;
          cagr_pct = (case CAGR row of Some c \<Rightarrow> c | None \<Rightarrow> 0);
          ter_pct = (case TER row of Some t \<Rightarrow> t | None \<Rightarrow> 0)
      in [(6, idx - 1, etf_name),
          (7, idx - 1, isin),
          (8, idx - 1, ''='' @ fmt_number (Some (cagr_pct / 100)) 10),
          (9, idx - 1, ''='' @ fmt_number (Some (ter_pct / 100)) 10),
          (10, idx - 1, ''=(1+'' @ col @ ''9)*(1-'' @ col @ ''10)/(1+$B$3)-1'')])"

definition rate_writes :: "(pyval \<Rightarrow> string) \<Rightarrow> overview_row list \<Rightarrow> cell_write list" where
  "rate_writes repr_other etfs =
     concat (map (\<lambda>(idx, row). rate_column repr_other idx row) (enumerate 2 etfs))"

text \<open>The header of a growth block: its label, then the ISIN of each instrument.\<close>

definition header_writes :: "nat \<Rightarrow> string \<Rightarrow> overview_row list \<Rightarrow> cell_write list" where
  "header_writes header label etfs =
     (header, 0, label) # map (\<lambda>(idx, row). (header, idx - 1, ISIN row)) (enumerate 2 etfs)"

text \<open>Lines 446 to 455 and 466 to 475: the rows of a growth block from its first data
  row; \<open>rate_ref\<close> is the row of the rate in the formula, \<open>$11\<close> with fees and \<open>$9\<close>
  without. \<open>growth_cell\<close> is the body of the inner loop.\<close>

definition growth_cell :: "string \<Rightarrow> nat \<Rightarrow> nat \<Rightarrow> nat \<Rightarrow> cell_write" where
  "growth_cell rate_ref r y idx =
     (let col = excel_col_name idx in
      if y = 0 then (r, idx - 1, ''=$B$2'')
      else (let prev_r = r - 1 in
            (r, idx - 1,
             ''='' @ col @ show_nat (prev_r + 1) @ ''*(1+'' @ col @ rate_ref @ '')+$B$4*12'')))"

definition growth_writes :: "string \<Rightarrow> nat \<Rightarrow> nat \<Rightarrow> nat \<Rightarrow> cell_write list" where
  "growth_writes rate_ref start years n =
     concat (map (\<lambda>y.
        (let r = start + y in
         (r, 0, show_nat y) # map (growth_cell rate_ref r y) [2..<2 + n]))
       [0..<years + 1])"

text \<open>Lines 479 to 495: the summary block. \<open>summary_row\<close> is the body of the loop.\<close>

definition summary_row ::
  "(pyval \<Rightarrow> string) \<Rightarrow> nat \<Rightarrow> nat \<Rightarrow> nat \<Rightarrow> nat \<Rightarrow> overview_row \<Rightarrow> cell_write list" where
  "summary_row repr_other summary_header net_final_row no_cost_final_row i row =
     (let r = summary_header + i; col = excel_col_name (i + 1) in
      [(r, 0, ISIN row),
       (r, 1, py_str repr_other (Nom_ETF row)),
       (r, 2, ''='' @ col @ show_nat (net_final_row + 1)),
       (r, 3, ''='' @ col @ show_nat (no_cost_final_row + 1)),
       (r, 4, ''=D'' @ show_nat (r + 1) @ ''-C'' @ show_nat (r + 1)),
       (r, 5, ''=E'' @ show_nat (r + 1) @ ''/D'' @ show_nat (r + 1))])"

definition summary_writes ::
  "(pyval \<Rightarrow> string) \<Rightarrow> nat \<Rightarrow> nat \<Rightarrow> nat \<Rightarrow> overview_row list \<Rightarrow> cell_write list" where
  "summary_writes repr_other summary_header net_final_row no_cost_final_row etfs =
     [(summary_header, 0, ''ISIN''), (summary_header, 1, ''Nom ETF''),
      (summary_header, 2, ''Capital final net reel''),
      (summary_header, 3, ''Capital final sans frais''),
      (summary_header, 4, ''Manque a gagner''), (summary_header, 5, ''Manque a gagner %'')] @
     concat (map (\<lambda>(i, row).
                    summary_row repr_other summary_header net_final_row no_cost_final_row i row)
       (enumerate 1 etfs))"

text \<open>All the calls of \<open>set_cell\<close> for a list of instruments that is not empty.\<close>

definition projection_writes ::
  "(pyval \<Rightarrow> string) \<Rightarrow> overview_row list \<Rightarrow> nat \<Rightarrow> real \<Rightarrow> real \<Rightarrow> real \<Rightarrow> cell_write list" where
  "projection_writes repr_other etfs years capital_initial inflation dca_mensuel =
     (let projection_header = 12;
          start_data_row = projection_header + 1;
          net_final_row = start_data_row + years;
          no_cost_header = net_final_row + 3;
          no_cost_start = no_cost_header + 1;
          no_cost_final_row = no_cost_start + years;
          summary_header = no_cost_final_row + 3
      in parameter_writes years capital_initial inflation dca_mensuel @
         rate_writes repr_other etfs @
         header_writes projection_header ''Annee'' etfs @
         growth_writes ''$11'' start_data_row years (length etfs) @
         header_writes no_cost_header ''Annee (sans frais)'' etfs @
         growth_writes ''$9'' no_cost_start years (length etfs) @
         summary_writes repr_other summary_header net_final_row no_cost_final_row etfs)"

text \<open>\<open>write_projection_csv\<close>: the rows handed to the CSV writer, or the exception
  raised before anything is written. The horizon is a natural number (\<open>main\<close> passes
  \<open>max(1, years)\<close>).\<close>

definition write_projection_csv ::
  "(pyval \<Rightarrow> string) \<Rightarrow> overview_row list \<Rightarrow> nat \<Rightarrow> real \<Rightarrow> real \<Rightarrow> real \<Rightarrow> error + matrix" where
  "write_projection_csv repr_other rows years capital_initial inflation dca_mensuel =
     (let etfs = rows in
      if etfs = [] then Inr [[''Aucun ETF exploitable'']]
      else
        (let col_count = 1 + length etfs in
         set_cells col_count
           (projection_writes repr_other etfs years capital_initial inflation dca_mensuel) []))"

section \<open>Rows of the overview (export_etf_csv)\<close>

text \<open>\<open>str.upper\<close>: a..z, the Latin-1 small letters 224..254 but the division sign 247,
  and the sharp s, whose capital is \<open>SS\<close>. The capitals of the micro sign and of y with
  diaeresis lie above code point 255 and are outside this model of characters: both
  are left as they are.\<close>

definition upper_char :: "char \<Rightarrow> string" where
  "upper_char c = (let n = (of_char c :: nat) in
     if (97 \<le> n \<and> n \<le> 122) \<or> (224 \<le> n \<and> n \<le> 254 \<and> n \<noteq> 247) then [char_of (n - 32)]
     else if n = 223 then ''SS'' else [c])"

definition py_upper :: "string \<Rightarrow> string" where
  "py_upper s = concat (map upper_char s)"

text \<open>\<open>v or ""\<close>.\<close>

definition or_blank :: "pyval \<Rightarrow> pyval" where
  "or_blank v = (if truthy v then v else PStr [])"

text \<open>\<open>v if isinstance(v, str) else None\<close>.\<close>

definition str_or_none :: "pyval \<Rightarrow> string option" where
  "str_or_none v = (case v of PStr s \<Rightarrow> Some s | _ \<Rightarrow> None)"

text \<open>\<open>parse_percent\<close> and \<open>parse_aum_meur\<close> called on a value of the document: a value
  that is false (\<open>None\<close>, an empty text, a zero) gives \<open>None\<close>, a text is parsed, and
  any other value reaches \<open>value.replace\<close> in \<open>clean_spaces\<close>, which raises
  \<open>AttributeError\<close>.\<close>

definition parse_percent_value :: "pyval \<Rightarrow> error + real option" where
  "parse_percent_value v =
     (if \<not> truthy v then Inr None
      else case v of PStr s \<Rightarrow> Inr (parse_percent (Some s)) | _ \<Rightarrow> Inl AttributeError)"

definition parse_aum_meur_value :: "pyval \<Rightarrow> error + real option" where
  "parse_aum_meur_value v =
     (if \<not> truthy v then Inr None
      else case v of PStr s \<Rightarrow> Inr (parse_aum_meur (Some s)) | _ \<Rightarrow> Inl AttributeError)"

text \<open>Lines 285 to 288: the stored \<open>cagr_depuis_creation_pct\<close> when it is a number,
  else the rate computed from the grid; \<open>None\<close> when neither is a number.\<close>

definition resolve_cagr :: "(string \<times> pyval) list \<Rightarrow> pyval \<Rightarrow> real option" where
  "resolve_cagr data heatmap =
     (let cagr = py_get data ''cagr_depuis_creation_pct'';
          cagr = (if \<not> is_number cagr
                  then (case compute_cagr_from_heatmap heatmap of
                          None \<Rightarrow> PNone | Some c \<Rightarrow> PFloat c)
                  else cagr)
      in if is_number cagr then Some (as_float cagr) else None)"

text \<open>\<open>str(data.get("isin", "")).strip().upper()\<close>.\<close>

definition doc_isin :: "(pyval \<Rightarrow> string) \<Rightarrow> (string \<times> pyval) list \<Rightarrow> string" where
  "doc_isin repr_other data =
     py_upper (py_strip (py_str repr_other
        (case map_of data ''isin'' of None \<Rightarrow> PStr [] | Some v \<Rightarrow> v)))"

subsection \<open>Launch date and age\<close>

definition FRENCH_MONTHS :: "(string \<times> int) list" where
  "FRENCH_MONTHS =
     [(''janvier'', 1), (''fevrier'', 2), (''fevr'', 2), (''mars'', 3), (''avril'', 4), (''mai'', 5),
      (''juin'', 6), (''juillet'', 7), (''aout'', 8), (''septembre'', 9), (''octobre'', 10),
      (''novembre'', 11), (''decembre'', 12)]"

text \<open>\<open>deaccent\<close>: the compatibility decomposition of a character, of which only the
  ASCII characters are kept. Below code point 256 a letter with a diacritic gives its
  base letter, a spacing diacritic and the no-break space give a space, the
  superscripts and fractions give their digits, the ordinal indicators give \<open>a\<close> and
  \<open>o\<close>, and every other character above 127 gives nothing.\<close>

definition deaccent_char :: "char \<Rightarrow> string" where
  "deaccent_char c = (let n = (of_char c :: nat) in
     if n < 128 then [c]
     else if n = 160 \<or> n = 168 \<or> n = 175 \<or> n = 180 \<or> n = 184 then '' ''
     else if n = 170 \<or> (224 \<le> n \<and> n \<le> 229) then ''a''
     else if n = 178 then ''2''
     else if n = 179 then ''3''
     else if n = 185 then ''1''
     else if n = 186 \<or> (242 \<le> n \<and> n \<le> 246) then ''o''
     else if n = 188 then ''14''
     else if n = 189 then ''12''
     else if n = 190 then ''34''
     else if 192 \<le> n \<and> n \<le> 197 then ''A''
     else if n = 199 then ''C''
     else if 200 \<le> n \<and> n \<le> 203 then ''E''
     else if 204 \<le> n \<and> n \<le> 207 then ''I''
     else if n = 209 then ''N''
     else if 210 \<le> n \<and> n \<le> 214 then ''O''
     else if 217 \<le> n \<and> n \<le> 220 then ''U''
     else if n = 221 then ''Y''
     else if n = 231 then ''c''
     else if 232 \<le> n \<and> n \<le> 235 then ''e''
     else if 236 \<le> n \<and> n \<le> 239 then ''i''
     else if n = 241 then ''n''
     else if 249 \<le> n \<and> n \<le> 252 then ''u''
     else if n = 253 \<or> n = 255 then ''y''
     else [])"

definition deaccent :: "string \<Rightarrow> string" where
  "deaccent s = concat (map deaccent_char s)"

text \<open>The class \<open>[A-Za-z\u00C0-\u017F]\<close> below code point 256.\<close>

definition is_name_letter :: "char \<Rightarrow> bool" where
  "is_name_letter c = (is_alpha_ascii c \<or> 192 \<le> (of_char c :: nat))"

text \<open>The match of \<open>(\d{1,2})\s+([A-Za-z\u00C0-\u017F]+)\s+(\d{4})\<close> at the start of a text:
  one or two digits (two when the second character is a digit), whitespace, letters,
  whitespace, four digits. Each part takes all it can; a shorter part would leave a
  character that the next part does not accept.\<close>

definition launch_groups_at :: "string \<Rightarrow> (string \<times> string \<times> string) option" where
  "launch_groups_at s =
     (case s of
        [] \<Rightarrow> None
      | d1 # r \<Rightarrow>
          if \<not> is_digit d1 then None
          else
            (let two = (case r of [] \<Rightarrow> False | d2 # _ \<Rightarrow> is_digit d2);
                 day = (if two then take 2 s else [d1]);
                 r1 = (if two then drop 2 s else r);
                 r2 = dropWhile is_space r1;
                 mon = takeWhile is_name_letter r2;
                 r3 = dropWhile is_name_letter r2;
                 r4 = dropWhile is_space r3;
                 yr = take 4 r4
             in if takeWhile is_space r1 \<noteq> [] \<and> mon \<noteq> [] \<and> takeWhile is_space r3 \<noteq> []
                   \<and> length yr = 4 \<and> list_all is_digit yr
                then Some (day, mon, yr) else None))"

text \<open>The match of the whole pattern at the start of a text: \<open>lanc\<close>, an \<open>e\<close> with or
  without an acute accent (code point 233), whitespace, \<open>le\<close>, whitespace and the three
  groups. The pattern is compiled with \<open>re.IGNORECASE\<close>: letters are compared without
  case.\<close>

definition launch_at :: "string \<Rightarrow> (string \<times> string \<times> string) option" where
  "launch_at s =
     (let r1 = drop 5 s;
          r2 = dropWhile is_space r1;
          r3 = drop 2 r2
      in if 5 \<le> length s \<and> py_lower (take 4 s) = ''lanc''
            \<and> (lower_char (s ! 4) = CHR ''e'' \<or> lower_char (s ! 4) = CHR 0xE9)
            \<and> takeWhile is_space r1 \<noteq> [] \<and> py_lower (take 2 r2) = ''le''
            \<and> takeWhile is_space r3 \<noteq> []
         then launch_groups_at (dropWhile is_space r3) else None)"

text \<open>\<open>re.search\<close>: the leftmost position with a match.\<close>

fun search_launch :: "string \<Rightarrow> (string \<times> string \<times> string) option" where
  "search_launch [] = None"
| "search_launch (c # cs) =
     (case launch_at (c # cs) of Some g \<Rightarrow> Some g | None \<Rightarrow> search_launch cs)"

text \<open>\<open>extract_launch_date_from_description\<close>. The year has four digits and the day at
  most two, so that \<open>dt.date\<close> raises nothing but the \<open>ValueError\<close> caught there. The
  second \<open>replace\<close> of the source puts \<open>fevrier\<close> for \<open>fevrier\<close> and changes nothing.\<close>

definition extract_launch_date_from_description :: "string option \<Rightarrow> date option" where
  "extract_launch_date_from_description description =
     (case description of
        None \<Rightarrow> None
      | Some v \<Rightarrow>
          if v = [] then None
          else
            (case search_launch (clean_spaces v) of
               None \<Rightarrow> None
             | Some (g1, g2, g3) \<Rightarrow>
                 (let day = int (digits_value g1);
                      month_token = remove_char CHR ''.'' (deaccent (py_lower g2))
                  in case map_of FRENCH_MONTHS month_token of
                       None \<Rightarrow> None
                     | Some month \<Rightarrow> date_new (int (digits_value g3)) month day)))"

text \<open>The loop of \<open>infer_launch_date_from_heatmap\<close> that collects the (year, month) of
  the rows: the year reads as an integer and the month is an int from 1 to 12.\<close>

fun launch_points :: "pyval list \<Rightarrow> (int \<times> int) list" where
  "launch_points [] = []"
| "launch_points (row # rest) =
     (case row of
        PDict d \<Rightarrow>
          (case py_int_str (py_get d ''year'') of
             None \<Rightarrow> launch_points rest
           | Some year \<Rightarrow>
               (let month_idx = py_get d ''month_index'' in
                if \<not> is_int month_idx then launch_points rest
                else if as_int month_idx < 1 \<or> as_int month_idx > 12 then launch_points rest
                else (year, as_int month_idx) # launch_points rest))
      | _ \<Rightarrow> launch_points rest)"

text \<open>\<open>infer_launch_date_from_heatmap\<close>: the first day of the earliest (year, month) of
  the grid. \<open>dt.date(year, month, 1)\<close> takes its arguments as C \<open>int\<close>s: a year below
  \<open>-2^31\<close> or above \<open>2^31 - 1\<close> raises \<open>OverflowError\<close>, which the \<open>except ValueError\<close> of
  the function does not catch.\<close>

definition infer_launch_date_from_heatmap :: "pyval \<Rightarrow> error + date option" where
  "infer_launch_date_from_heatmap heatmap =
     (case heatmap of
        PDict h \<Rightarrow>
          (case py_get h ''values'' of
             PList vals \<Rightarrow>
               if vals = [] then Inr None
               else
                 (let points = launch_points vals in
                  if points = [] then Inr None
                  else
                    (let first = hd (sort points); year = fst first; month = snd first in
                     if year < - (2 ^ 31) \<or> 2 ^ 31 - 1 < year then Inl OverflowError
                     else Inr (date_new year month 1)))
           | _ \<Rightarrow> Inr None)
      | _ \<Rightarrow> Inr None)"

text \<open>\<open>years_between\<close>: \<open>int(days / 365.2425)\<close> of a number of days that is not
  negative.\<close>

definition years_between :: "date option \<Rightarrow> date \<Rightarrow> int option" where
  "years_between start_date end_date =
     (case start_date of
        None \<Rightarrow> None
      | Some start \<Rightarrow>
          (let days = date_diff_days end_date start in
           if days < 0 then None else Some \<lfloor>real_of_int days / 365.2425\<rfloor>))"

subsection \<open>Numbers out of the range of a float\<close>

text \<open>\<open>float(v)\<close> of an \<open>int\<close> raises \<open>OverflowError\<close> when the nearest float would be
  \<open>2^1024\<close> or more in magnitude, which is from \<open>2^1024 - 2^970\<close> on.\<close>

definition float_raises :: "pyval \<Rightarrow> bool" where
  "float_raises v = (case v of PInt i \<Rightarrow> 2 ^ 1024 - 2 ^ 970 \<le> \<bar>i\<bar> | _ \<Rightarrow> False)"

text \<open>\<open>compute_cagr_from_heatmap\<close> raises \<open>OverflowError\<close> in two places: in
  \<open>float(ret)\<close> for a row whose \<open>return_pct\<close> is an \<open>int\<close> out of range, and in \<open>math.pow\<close>
  when the power leaves the range of a float. Floats being read as real numbers, the
  power leaves the range when it reaches \<open>2^1024\<close>; a product that has itself reached
  \<open>2^1024\<close> is the float \<open>inf\<close>, of which \<open>math.pow\<close> returns \<open>inf\<close> and raises nothing.\<close>

definition compute_cagr_from_heatmap_raises :: "pyval \<Rightarrow> bool" where
  "compute_cagr_from_heatmap_raises heatmap =
     (case heatmap of
        PDict h \<Rightarrow>
          (case py_get h ''values'' of
             PList vals \<Rightarrow>
               list_ex (\<lambda>row. case row of PDict d \<Rightarrow> float_raises (py_get d ''return_pct'')
                               | _ \<Rightarrow> False) vals
               \<or> (let returns = collect_returns vals;
                       compounded = compound returns
                   in returns \<noteq> [] \<and> 0 < compounded \<and> compounded < 2 ^ 1024
                      \<and> 2 ^ 1024 \<le> compounded powr (12 / real (length returns)))
           | _ \<Rightarrow> False)
      | _ \<Rightarrow> False)"

text \<open>\<open>compute_yearly_returns_from_heatmap\<close> raises \<open>OverflowError\<close> in \<open>float(ret)\<close>, for
  a row that passed its checks of the year and of the month.\<close>

definition compute_yearly_returns_raises :: "pyval \<Rightarrow> bool" where
  "compute_yearly_returns_raises heatmap =
     (case heatmap of
        PDict h \<Rightarrow>
          (case py_get h ''values'' of
             PList vals \<Rightarrow>
               list_ex (\<lambda>row. case row of
                          PDict d \<Rightarrow>
                            (case py_int_str (py_get d ''year'') of
                               None \<Rightarrow> False
                             | Some year \<Rightarrow>
                                 is_int (py_get d ''month_index'')
                                 \<and> float_raises (py_get d ''return_pct''))
                        | _ \<Rightarrow> False) vals
           | _ \<Rightarrow> False)
      | _ \<Rightarrow> False)"

text \<open>Lines 285 to 288 raise \<open>OverflowError\<close> when the stored rate is an \<open>int\<close> out of
  range (\<open>float(cagr)\<close>), or when there is no stored rate and the computation from the
  grid raises.\<close>

definition resolve_cagr_raises :: "(string \<times> pyval) list \<Rightarrow> pyval \<Rightarrow> bool" where
  "resolve_cagr_raises data heatmap =
     (let cagr = py_get data ''cagr_depuis_creation_pct'' in
      if is_number cagr then float_raises cagr else compute_cagr_from_heatmap_raises heatmap)"

subsection \<open>The rows\<close>

text \<open>The body of the loop of \<open>build_overview_rows\<close> for a document that is a dict
  with an ISIN, in the order of the source: the three parsed facts (each may raise
  \<open>AttributeError\<close>), the rate (lines 285 to 288, \<open>OverflowError\<close>), the launch date found
  in the description or else inferred from the grid (lines 290 to 292,
  \<open>OverflowError\<close>), the age, and the yearly returns (\<open>OverflowError\<close>). \<open>today\<close> is
  \<open>dt.date.today()\<close>. Nothing in the function catches an exception. Reading and
  decoding the file is not part of the model.\<close>

definition build_row ::
  "date \<Rightarrow> (pyval \<Rightarrow> string) \<Rightarrow> (string \<times> pyval) list \<Rightarrow> string \<Rightarrow> error + overview_row" where
  "build_row today repr_other data isin =
     (let details = (case py_get data ''donnees'' of PDict d \<Rightarrow> d | _ \<Rightarrow> []);
          description = py_get data ''description'';
          name = py_get data ''nom'';
          heatmap = py_get data ''heatmap_mensuelle'';
          axis = py_get details ''axe_investissement''
      in case parse_percent_value (py_get details ''frais_totaux_sur_encours_ter'') of
           Inl e \<Rightarrow> Inl e
         | Inr ter \<Rightarrow>
             (case parse_percent_value (py_get details ''volatilite_sur_1_an'') of
                Inl e \<Rightarrow> Inl e
              | Inr volatility \<Rightarrow>
                  (case parse_aum_meur_value (py_get details ''taille_du_fonds'') of
                     Inl e \<Rightarrow> Inl e
                   | Inr aum_meur \<Rightarrow>
                       if resolve_cagr_raises data heatmap then Inl OverflowError
                       else
                         (let cagr = resolve_cagr data heatmap in
                          case (case extract_launch_date_from_description (str_or_none description) of
                                  Some d \<Rightarrow> Inr (Some d)
                                | None \<Rightarrow> infer_launch_date_from_heatmap heatmap) of
                            Inl e \<Rightarrow> Inl e
                          | Inr launch_date \<Rightarrow>
                              (let age_years = years_between launch_date today in
                               if compute_yearly_returns_raises heatmap then Inl OverflowError
                               else
                                 (let yearly_returns = compute_yearly_returns_from_heatmap heatmap;
                                      neg_years = negative_year_count yearly_returns;
                                      worst = worst_year yearly_returns
                                  in Inr \<lparr>ISIN = isin,
                                          Nom_ETF = or_blank name,
                                          Axe_investissement = or_blank axis,
                                          Categorie = classify_category (str_or_none name) (str_or_none axis),
                                          TER = ter,
                                          AUM = aum_meur,
                                          Date_lancement = launch_date,
                                          Age_du_fonds = age_years,
                                          Volatilite = volatility,
                                          CAGR = cagr,
                                          Nb_annees_negatives =
                                            (if yearly_returns \<noteq> [] then Some neg_years else None),
                                          Pire_annee = worst\<rparr>))))))"

text \<open>\<open>build_overview_rows\<close> over the decoded documents, in order: a document that is
  not a dict or whose ISIN is empty is skipped; an exception ends the run.\<close>

fun build_overview_rows ::
  "date \<Rightarrow> (pyval \<Rightarrow> string) \<Rightarrow> pyval list \<Rightarrow> error + overview_row list" where
  "build_overview_rows today repr_other [] = Inr []"
| "build_overview_rows today repr_other (data # rest) =
     (case data of
        PDict d \<Rightarrow>
          (let isin = doc_isin repr_other d in
           if isin = [] then build_overview_rows today repr_other rest
           else
             (case build_row today repr_other d isin of
                Inl e \<Rightarrow> Inl e
              | Inr row \<Rightarrow>
                  (case build_overview_rows today repr_other rest of
                     Inl e \<Rightarrow> Inl e
                   | Inr rows \<Rightarrow> Inr (row # rows))))
      | _ \<Rightarrow> build_overview_rows today repr_other rest)"

text \<open>For the statements: a document that contributes a row, the name of its row, and
  a document whose fee, volatility and size are text or absent.\<close>

definition accepted :: "(pyval \<Rightarrow> string) \<Rightarrow> pyval \<Rightarrow> bool" where
  "accepted repr_other data =
     (case data of PDict d \<Rightarrow> doc_isin repr_other d \<noteq> [] | _ \<Rightarrow> False)"

definition doc_name :: "pyval \<Rightarrow> pyval" where
  "doc_name data = (case data of PDict d \<Rightarrow> or_blank (py_get d ''nom'') | _ \<Rightarrow> PStr [])"

definition text_or_absent :: "pyval \<Rightarrow> bool" where
  "text_or_absent v = (case v of PStr s \<Rightarrow> True | _ \<Rightarrow> \<not> truthy v)"

definition facts_are_text :: "pyval \<Rightarrow> bool" where
  "facts_are_text data =
     (case data of
        PDict d \<Rightarrow>
          (let details = (case py_get d ''donnees'' of PDict x \<Rightarrow> x | _ \<Rightarrow> []) in
           text_or_absent (py_get details ''frais_totaux_sur_encours_ter'') \<and>
           text_or_absent (py_get details ''volatilite_sur_1_an'') \<and>
           text_or_absent (py_get details ''taille_du_fonds''))
      | _ \<Rightarrow> True)"

text \<open>For the statements: a document whose numbers are ordinary. Its stored rate, when
  it is an \<open>int\<close>, and every numeric \<open>return_pct\<close> of its grid are at most \<open>10^6\<close> in
  magnitude, and every year of its grid that reads as an integer fits a C \<open>int\<close>.\<close>

definition ordinary_row :: "pyval \<Rightarrow> bool" where
  "ordinary_row row =
     (case row of
        PDict d \<Rightarrow>
          (is_number (py_get d ''return_pct'') \<longrightarrow> \<bar>as_float (py_get d ''return_pct'')\<bar> \<le> 10 ^ 6)
          \<and> (case py_int_str (py_get d ''year'') of
                Some year \<Rightarrow> - (2 ^ 31) \<le> year \<and> year \<le> 2 ^ 31 - 1
              | None \<Rightarrow> True)
      | _ \<Rightarrow> True)"

definition ordinary_numbers :: "pyval \<Rightarrow> bool" where
  "ordinary_numbers data =
     (case data of
        PDict d \<Rightarrow>
          (case py_get d ''cagr_depuis_creation_pct'' of PInt i \<Rightarrow> \<bar>i\<bar> \<le> 10 ^ 6 | _ \<Rightarrow> True)
          \<and> (case py_get d ''heatmap_mensuelle'' of
                PDict h \<Rightarrow>
                  (case py_get h ''values'' of PList vals \<Rightarrow> list_all ordinary_row vals | _ \<Rightarrow> True)
              | _ \<Rightarrow> True)
      | _ \<Rightarrow> True)"

section \<open>Scraper (scrape_justetf)\<close>

subsection \<open>Text of the page\<close>

text \<open>\<open>clean_text\<close>: no-break spaces become spaces, every run of whitespace becomes
  one space, and the ends are stripped.\<close>

definition clean_text :: "string \<Rightarrow> string" where
  "clean_text v = py_strip (collapse_spaces (replace_char (CHR 0xA0) CHR '' '' v))"

text \<open>The match of \<open>\d+(?:\.\d+)?\<close> at the start of a text that starts with a digit,
  and \<open>re.search(r"-?\d+(?:\.\d+)?", text)\<close>.\<close>

definition number_at_dot :: "string \<Rightarrow> string" where
  "number_at_dot s =
     (let ip = takeWhile is_digit s in
      case dropWhile is_digit s of
        [] \<Rightarrow> ip
      | sep # r \<Rightarrow>
          (case r of
             [] \<Rightarrow> ip
           | d # _ \<Rightarrow>
               if sep = CHR ''.'' \<and> is_digit d then ip @ sep # takeWhile is_digit r else ip))"

fun search_number_dot :: "string \<Rightarrow> string option" where
  "search_number_dot [] = None"
| "search_number_dot (c # cs) =
     (if c = CHR ''-'' \<and> (case cs of [] \<Rightarrow> False | d # _ \<Rightarrow> is_digit d)
      then Some (c # number_at_dot cs)
      else if is_digit c then Some (number_at_dot (c # cs))
      else search_number_dot cs)"

definition parse_percent_text :: "string option \<Rightarrow> real option" where
  "parse_percent_text value =
     (case value of
        None \<Rightarrow> None
      | Some v \<Rightarrow>
          if v = [] then None
          else
            (let text = remove_char CHR '' '' (remove_char (CHR 0xA0) v);
                 text = replace_char CHR '','' CHR ''.''
                          (remove_char CHR ''+'' (remove_char CHR ''%'' text))
             in case search_number_dot text of
                  None \<Rightarrow> None
                | Some m \<Rightarrow> py_float m))"

text \<open>The month names of \<open>MONTH_INDEX\<close>.\<close>

definition MONTH_INDEX :: "(string \<times> int) list" where
  "MONTH_INDEX =
     [(''jan'', 1), (''janv'', 1), (''janvier'', 1),
      (''feb'', 2), (''fev'', 2), (''fevr'', 2), (''fevrier'', 2), (''fvrier'', 2),
      (''mar'', 3), (''mars'', 3), (''avr'', 4), (''avril'', 4), (''mai'', 5),
      (''jun'', 6), (''juin'', 6), (''jul'', 7), (''juil'', 7), (''juillet'', 7),
      (''aou'', 8), (''aout'', 8), (''aug'', 8),
      (''sep'', 9), (''sept'', 9), (''septembre'', 9),
      (''oct'', 10), (''octobre'', 10), (''nov'', 11), (''novembre'', 11),
      (''dec'', 12), (''decembre'', 12), (''dcembre'', 12)]"

text \<open>The match of \<open>(\d{1,2})\s+([a-zA-Z]+)\s+(\d{4})\<close> at the start of a text: one
  or two digits (two when the second character is a digit), whitespace, letters,
  whitespace, four digits. Each part takes all it can; a shorter part would leave a
  character that the next part does not accept.\<close>

definition date_at :: "string \<Rightarrow> (string \<times> string \<times> string) option" where
  "date_at s =
     (case s of
        [] \<Rightarrow> None
      | d1 # r \<Rightarrow>
          if \<not> is_digit d1 then None
          else
            (let two = (case r of [] \<Rightarrow> False | d2 # _ \<Rightarrow> is_digit d2);
                 day = (if two then take 2 s else [d1]);
                 r1 = (if two then drop 2 s else r);
                 r2 = dropWhile is_space r1;
                 mon = takeWhile is_alpha_ascii r2;
                 r3 = dropWhile is_alpha_ascii r2;
                 r4 = dropWhile is_space r3;
                 yr = take 4 r4
             in if takeWhile is_space r1 \<noteq> [] \<and> mon \<noteq> [] \<and> takeWhile is_space r3 \<noteq> []
                   \<and> length yr = 4 \<and> list_all is_digit yr
                then Some (day, mon, yr) else None))"

text \<open>\<open>re.search\<close>: the leftmost position with a match.\<close>

fun search_date :: "string \<Rightarrow> (string \<times> string \<times> string) option" where
  "search_date [] = None"
| "search_date (c # cs) =
     (case date_at (c # cs) of Some g \<Rightarrow> Some g | None \<Rightarrow> search_date cs)"

text \<open>The replacements of accented letters in the month token.\<close>

definition unaccent_month :: "string \<Rightarrow> string" where
  "unaccent_month s =
     replace_char (CHR 0xE7) CHR ''c'' (replace_char (CHR 0xE0) CHR ''a''
       (replace_char (CHR 0xEF) CHR ''i'' (replace_char (CHR 0xEE) CHR ''i''
         (replace_char (CHR 0xF4) CHR ''o'' (replace_char (CHR 0xF9) CHR ''u''
           (replace_char (CHR 0xFB) CHR ''u'' (replace_char (CHR 0xEA) CHR ''e''
             (replace_char (CHR 0xE8) CHR ''e'' (replace_char (CHR 0xE9) CHR ''e'' s)))))))))"

definition parse_french_date :: "string option \<Rightarrow> date option" where
  "parse_french_date value =
     (case value of
        None \<Rightarrow> None
      | Some v \<Rightarrow>
          if v = [] then None
          else
            (case search_date (py_lower (clean_text v)) of
               None \<Rightarrow> None
             | Some (g1, g2, g3) \<Rightarrow>
                 (let day = int (digits_value g1);
                      month_token = unaccent_month g2;
                      year = int (digits_value g3)
                  in case map_of MONTH_INDEX month_token of
                       None \<Rightarrow> None
                     | Some month \<Rightarrow> date_new year month day)))"

subsection \<open>The profile of an instrument\<close>

text \<open>The dict built by \<open>parse_profile_html\<close>, with the entries that the rate
  computations read or write: its texts are a \<open>str\<close> or \<open>None\<close>, and \<open>meta\<close> is the entry
  \<open>_meta_returns\<close> (\<open>None\<close> when it is no dict).\<close>

record meta_returns =
  max_return_text :: "string option"
  launch_date_text :: "string option"

record profile =
  nom :: "string option"
  cagr_depuis_creation_pct :: "real option"
  cagr_depuis_creation_source :: "string option"
  heatmap_mensuelle :: "(string \<times> pyval) list option"
  meta :: "meta_returns option"

text \<open>\<open>compute_cagr_from_max_return\<close>; \<open>today\<close> is \<open>dt.date.today()\<close>.\<close>

definition compute_cagr_from_max_return :: "date \<Rightarrow> profile \<Rightarrow> real option" where
  "compute_cagr_from_max_return today parsed =
     (case meta parsed of
        None \<Rightarrow> None
      | Some m \<Rightarrow>
          (let max_return_pct = parse_percent_text (max_return_text m);
               launch_date = parse_french_date (launch_date_text m)
           in case max_return_pct of
                None \<Rightarrow> None
              | Some pct \<Rightarrow>
                  (case launch_date of
                     None \<Rightarrow> None
                   | Some launch \<Rightarrow>
                       (let days = date_diff_days today launch in
                        if days \<le> 0 then None
                        else
                          (let years = real_of_int days / 365.2425;
                               total_growth = 1 + pct / 100
                           in if total_growth \<le> 0 then None
                              else Some ((total_growth powr (1 / years) - 1) * 100))))))"

text \<open>The body of the loop of \<open>main\<close> for one ISIN, from the parsed page and the
  fetched grid to the document written: a page with no name raises (\<open>Inl\<close>, the
  message recorded for that ISIN), the rate of the grid is stored when there is
  one, else the fallback estimate when there is one, and \<open>_meta_returns\<close> is
  deleted.\<close>

definition process_profile ::
  "date \<Rightarrow> profile \<Rightarrow> (string \<times> pyval) list option \<Rightarrow> string + profile" where
  "process_profile today parsed heatmap =
     (if nom parsed = None \<or> nom parsed = Some []
      then Inl ''Nom introuvable: page probablement invalide ou structure changee.''
      else
        (let parsed = parsed\<lparr>heatmap_mensuelle := heatmap\<rparr>;
             cagr_from_heatmap = scrape_compute_cagr_from_heatmap heatmap;
             parsed =
               (case cagr_from_heatmap of
                  Some c \<Rightarrow>
                    parsed\<lparr>cagr_depuis_creation_pct := Some (py_round c 6),
                           cagr_depuis_creation_source := Some ''heatmap_mensuelle''\<rparr>
                | None \<Rightarrow>
                    (case compute_cagr_from_max_return today parsed of
                       Some f \<Rightarrow>
                         parsed\<lparr>cagr_depuis_creation_pct := Some (py_round f 6),
                                cagr_depuis_creation_source := Some ''max_return_plus_launch_date''\<rparr>
                     | None \<Rightarrow> parsed))
         in Inr (parsed\<lparr>meta := None\<rparr>)))"

text \<open>For the proofs about the matrix: every row has \<open>col_count\<close> cells; the value of a
  cell before a run; the last value that a list of calls writes to a cell.\<close>

definition wf_matrix :: "nat \<Rightarrow> matrix \<Rightarrow> bool" where
  "wf_matrix col_count m = list_all (\<lambda>row. length row = col_count) m"

definition old_cell :: "matrix \<Rightarrow> nat \<Rightarrow> nat \<Rightarrow> string" where
  "old_cell m r c = (if r < length m then m ! r ! c else [])"

definition last_write :: "cell_write list \<Rightarrow> nat \<Rightarrow> nat \<Rightarrow> string \<Rightarrow> string" where
  "last_write ws r c d = fold (\<lambda>w cur. if fst w = r \<and> fst (snd w) = c then snd (snd w) else cur) ws d"

definition rows_needed :: "cell_write list \<Rightarrow> nat \<Rightarrow> nat" where
  "rows_needed ws n = fold (\<lambda>w k. max k (Suc (fst w))) ws n"

text \<open>A row with its absent \<open>CAGR (%)\<close> and \<open>TER (%)\<close> replaced by a measured zero.\<close>

definition absent_as_zero :: "overview_row \<Rightarrow> overview_row" where
  "absent_as_zero row =
     row\<lparr>TER := Some (case TER row of Some t \<Rightarrow> t | None \<Rightarrow> 0),
         CAGR := Some (case CAGR row of Some c \<Rightarrow> c | None \<Rightarrow> 0)\<rparr>"

text \<open>An example row, for the worked examples: an ISIN, a \<open>CAGR (%)\<close> and a \<open>TER (%)\<close>.\<close>

definition example_row :: "string \<Rightarrow> real option \<Rightarrow> real option \<Rightarrow> overview_row" where
  "example_row isin cagr ter =
     \<lparr>ISIN = isin, Nom_ETF = PStr (''ETF '' @ isin), Axe_investissement = PStr [],
      Categorie = ''Satellite'', TER = ter, AUM = None, Date_lancement = None,
      Age_du_fonds = None, Volatilite = None, CAGR = cagr,
      Nb_annees_negatives = None, Pire_annee = None\<rparr>"

text \<open>The decimals that \<open>fmt_number\<close> prints for the scaled value \<open>k\<close> (used in the proofs).\<close>

definition frac_digits :: "nat \<Rightarrow> nat \<Rightarrow> string" where
  "frac_digits k n = rstrip_char CHR ''0'' (zero_pad n (show_nat (k mod 10 ^ n)))"

text \<open>The text of a decimal number: digits, then a separator and digits when there
  are decimals.\<close>

definition dec_text :: "string \<Rightarrow> char \<Rightarrow> string \<Rightarrow> string" where
  "dec_text D sep F = D @ (if F = [] then [] else sep # F)"







text \<open>The meaning of a substring, for the statements: \<open>sub\<close> occurs in \<open>text\<close>.\<close>

definition occurs_in :: "string \<Rightarrow> string \<Rightarrow> bool" where
  "occurs_in sub text = (\<exists>p s. text = p @ sub @ s)"

section \<open>Properties\<close>

subsection \<open>Substrings\<close>

lemma starts_with_iff: "starts_with sub str = (\<exists>s. str = sub @ s)"
  by (induction sub str rule: starts_with.induct) auto

lemma py_in_iff: "py_in sub str = occurs_in sub str"
proof (induction str)
  case Nil
  then show ?case by (auto simp: occurs_in_def)
next
  case (Cons t ts)
  show ?case
  proof
    assume "py_in sub (t # ts)"
    then consider "starts_with sub (t # ts)" | "py_in sub ts" by auto
    then show "occurs_in sub (t # ts)"
    proof cases
      case 1
      then obtain s where "t # ts = sub @ s" by (auto simp: starts_with_iff)
      then have "t # ts = [] @ sub @ s" by simp
      then show ?thesis unfolding occurs_in_def by blast
    next
      case 2
      then obtain p s where "ts = p @ sub @ s" using Cons.IH by (auto simp: occurs_in_def)
      then have "t # ts = (t # p) @ sub @ s" by simp
      then show ?thesis unfolding occurs_in_def by blast
    qed
  next
    assume "occurs_in sub (t # ts)"
    then obtain p s where ps: "t # ts = p @ sub @ s" by (auto simp: occurs_in_def)
    show "py_in sub (t # ts)"
    proof (cases p)
      case Nil
      then have "starts_with sub (t # ts)" using ps by (auto simp: starts_with_iff)
      then show ?thesis by simp
    next
      case (Cons a p')
      then have "ts = p' @ sub @ s" using ps by simp
      then have "occurs_in sub ts" unfolding occurs_in_def by blast
      then show ?thesis using Cons.IH by simp
    qed
  qed
qed

lemma py_lower_append: "py_lower (a @ b) = py_lower a @ py_lower b"
  by (simp add: py_lower_def)

subsection \<open>Category\<close>

text \<open>
  C6. For every name and axis, each possibly absent, \<open>classify_category\<close> lowercases the
  text made of the name, one space and the axis (an absent part counts as empty) and
  returns Core when \<open>core\<close> occurs in it, otherwise Hedge when \<open>hedg\<close> occurs in it,
  otherwise Satellite; Core is tested first, so a text with both is Core. The name
  \<open>MSCI World Core UCITS ETF\<close> with no axis is Core, a name with \<open>Hedged\<close> in it whose
  text has no \<open>core\<close> is Hedge, and a text with neither is Satellite.
\<close>

theorem classify_category_spec:
  "classify_category name axis =
     (if occurs_in ''core'' (py_lower (or_empty name @ '' '' @ or_empty axis)) then ''Core''
      else if occurs_in ''hedg'' (py_lower (or_empty name @ '' '' @ or_empty axis)) then ''Hedge''
      else ''Satellite'')
   \<and> (occurs_in ''core'' (py_lower (or_empty name @ '' '' @ or_empty axis)) \<and>
      occurs_in ''hedg'' (py_lower (or_empty name @ '' '' @ or_empty axis))
        \<longrightarrow> classify_category name axis = ''Core'')
   \<and> classify_category (Some ''MSCI World Core UCITS ETF'') None = ''Core''
   \<and> (occurs_in ''Hedged'' (or_empty name) \<and>
      \<not> occurs_in ''core'' (py_lower (or_empty name @ '' '' @ or_empty axis))
        \<longrightarrow> classify_category name axis = ''Hedge'')
   \<and> (\<not> occurs_in ''core'' (py_lower (or_empty name @ '' '' @ or_empty axis)) \<and>
      \<not> occurs_in ''hedg'' (py_lower (or_empty name @ '' '' @ or_empty axis))
        \<longrightarrow> classify_category name axis = ''Satellite'')"
proof -
  let ?t = "py_lower (or_empty name @ '' '' @ or_empty axis)"
  have main: "classify_category name axis =
     (if occurs_in ''core'' ?t then ''Core''
      else if occurs_in ''hedg'' ?t then ''Hedge'' else ''Satellite'')"
    by (simp add: classify_category_def py_in_iff Let_def)
  have ex: "classify_category (Some ''MSCI World Core UCITS ETF'') None = ''Core''"
    by code_simp
  have hedged: "occurs_in ''hedg'' ?t" if "occurs_in ''Hedged'' (or_empty name)"
  proof -
    from that obtain p s where n: "or_empty name = p @ ''Hedged'' @ s"
      by (auto simp: occurs_in_def)
    have low: "py_lower ''Hedged'' = ''hedg'' @ ''ed''" by code_simp
    have "?t = py_lower p @ ''hedg'' @ (''ed'' @ py_lower (s @ '' '' @ or_empty axis))"
      unfolding n py_lower_append low by simp
    then show ?thesis unfolding occurs_in_def by blast
  qed
  show ?thesis using main ex hedged by auto
qed

theorem classify_category_spec_witness:
  "classify_category (Some ''Core Euro Hedged'') None = ''Core''
   \<and> classify_category (Some ''S&P 500 EUR Hedged'') (Some ''Actions'') = ''Hedge''
   \<and> classify_category None (Some ''Obligations'') = ''Satellite''"
proof -
  have c: "occurs_in ''core'' (py_lower (or_empty (Some ''Core Euro Hedged'') @ '' '' @ or_empty None))"
    unfolding py_in_iff [symmetric] by code_simp
  have h: "occurs_in ''hedg'' (py_lower (or_empty (Some ''Core Euro Hedged'') @ '' '' @ or_empty None))"
    unfolding py_in_iff [symmetric] by code_simp
  have h2: "occurs_in ''Hedged'' (or_empty (Some ''S&P 500 EUR Hedged''))"
    unfolding py_in_iff [symmetric] by code_simp
  have nc2: "\<not> occurs_in ''core''
      (py_lower (or_empty (Some ''S&P 500 EUR Hedged'') @ '' '' @ or_empty (Some ''Actions'')))"
    unfolding py_in_iff [symmetric] by code_simp
  have nc3: "\<not> occurs_in ''core'' (py_lower (or_empty None @ '' '' @ or_empty (Some ''Obligations'')))"
    unfolding py_in_iff [symmetric] by code_simp
  have nh3: "\<not> occurs_in ''hedg'' (py_lower (or_empty None @ '' '' @ or_empty (Some ''Obligations'')))"
    unfolding py_in_iff [symmetric] by code_simp
  show ?thesis
    using classify_category_spec [of "Some ''Core Euro Hedged''" None] c h
      classify_category_spec [of "Some ''S&P 500 EUR Hedged''" "Some ''Actions''"] h2 nc2
      classify_category_spec [of None "Some ''Obligations''"] nc3 nh3
    by blast
qed

subsection \<open>Compound annual growth rate\<close>

lemma fold_mult_prod:
  "fold (\<lambda>r c. c * f r) rs (a::real) = a * prod_list (map f rs)"
  by (induction rs arbitrary: a) (simp_all add: mult.assoc)

lemma compound_prod: "compound rs = prod_list (map (\<lambda>r. 1 + r / 100) rs)"
  by (simp add: compound_def fold_mult_prod)



lemma sort_key_Nil_iff: "(sort_key k xs = []) = (xs = [])"
  by (metis length_0_conv length_sort)

subsection \<open>Yearly returns\<close>

lemma keys_setdefault_append:
  "map fst (setdefault_append by_year y p) =
     (if y \<in> set (map fst by_year) then map fst by_year else map fst by_year @ [y])"
  by (induction by_year) (auto simp: setdefault_append_def split: prod.splits)

lemma distinct_setdefault_append:
  "distinct (map fst by_year) \<Longrightarrow> distinct (map fst (setdefault_append by_year y p))"
  by (simp add: keys_setdefault_append)















subsection \<open>Formatting then parsing\<close>

lemma digit_char_props:
  assumes "d < 10"
  shows "is_digit (digit_char d)" and "digit_val (digit_char d) = d"
  using assms by (simp_all add: is_digit_def digit_val_def digit_char_def)

lemma digit_char_eq_zero: "d < 10 \<Longrightarrow> (digit_char d = CHR ''0'') = (d = 0)"
proof -
  assume d: "d < 10"
  have z: "digit_char 0 = CHR ''0''" by code_simp
  show ?thesis
  proof
    assume "digit_char d = CHR ''0''"
    then have "digit_val (digit_char d) = digit_val (digit_char 0)" using z by simp
    then show "d = 0" using d by (simp add: digit_char_props)
  next
    assume "d = 0" then show "digit_char d = CHR ''0''" using z by simp
  qed
qed

lemma not_digit_chars:
  "\<not> is_digit CHR ''-''" "\<not> is_digit CHR ''+''" "\<not> is_digit CHR ''.''" "\<not> is_digit CHR '',''"
  "\<not> is_digit CHR ''%''" "\<not> is_digit CHR ''p''" "\<not> is_digit CHR '' ''" "\<not> is_digit (CHR 0xA0)"
  by code_simp+

lemma digit_not_space: "is_digit c \<Longrightarrow> \<not> is_space c"
  by (auto simp: is_digit_def is_space_def)

lemma not_space_chars: "\<not> is_space CHR ''-''" "\<not> is_space CHR '',''" "\<not> is_space CHR ''.''"
  by code_simp+

lemma digit_val_zero: "digit_val CHR ''0'' = 0"
  by code_simp

lemma is_digit_zero: "is_digit CHR ''0''"
  by code_simp


lemma digits_value_snoc: "digits_value (s @ [c]) = 10 * digits_value s + digit_val c"
  by (simp add: digits_value_def)

lemma digits_value_Nil: "digits_value [] = 0"
  by (simp add: digits_value_def)

lemma digits_value_zero_Cons: "digits_value (CHR ''0'' # s) = digits_value s"
  by (simp add: digits_value_def digit_val_zero)

lemma digits_value_zeros: "digits_value (replicate j CHR ''0'' @ s) = digits_value s"
  by (induction j) (simp_all add: digits_value_zero_Cons)

lemma show_nat_digits: "list_all is_digit (show_nat n)"
proof (induction n rule: show_nat.induct)
  case (1 n)
  show ?case
  proof (cases "n < 10")
    case True
    then show ?thesis by (subst show_nat.simps) (simp add: digit_char_props)
  next
    case False
    then have "list_all is_digit (show_nat (n div 10))" using 1 by simp
    moreover have "is_digit (digit_char (n mod 10))" by (simp add: digit_char_props)
    ultimately show ?thesis using False by (subst show_nat.simps) simp
  qed
qed

lemma show_nat_value: "digits_value (show_nat n) = n"
proof (induction n rule: show_nat.induct)
  case (1 n)
  show ?case
  proof (cases "n < 10")
    case True
    then show ?thesis
      by (subst show_nat.simps) (simp add: digits_value_def digit_char_props)
  next
    case False
    then have "digits_value (show_nat (n div 10)) = n div 10" using 1 by simp
    then show ?thesis using False
      by (subst show_nat.simps) (simp add: digits_value_snoc digit_char_props)
  qed
qed

lemma show_nat_nonempty: "show_nat n \<noteq> []"
  by (subst show_nat.simps) simp

lemma show_nat_length: "0 < w \<Longrightarrow> n < 10 ^ w \<Longrightarrow> length (show_nat n) \<le> w"
proof (induction n arbitrary: w rule: show_nat.induct)
  case (1 n)
  show ?case
  proof (cases "n < 10")
    case True
    then show ?thesis using 1(2) by (subst show_nat.simps) simp
  next
    case False
    from False 1(3) have w1: "1 < w"
      by (metis One_nat_def Suc_lessI 1(2) not_less power_one_right)
    then obtain v where v: "w = Suc v" "0 < v" by (cases w) auto
    have "n div 10 < 10 ^ v" using 1(3) v by (simp add: less_mult_imp_div_less mult.commute)
    then have "length (show_nat (n div 10)) \<le> v" using 1(1) [OF False v(2)] by simp
    then show ?thesis using False v by (subst show_nat.simps) simp
  qed
qed

lemma zero_pad_props:
  assumes "list_all is_digit s" "length s \<le> w"
  shows "list_all is_digit (zero_pad w s)" "length (zero_pad w s) = w"
    "digits_value (zero_pad w s) = digits_value s"
  using assms by (auto simp: zero_pad_def is_digit_zero digits_value_zeros list_all_iff)

lemma dropWhile_stop: "\<not> P d \<Longrightarrow> dropWhile P (xs @ d # ys) = dropWhile P xs @ d # ys"
  by (induction xs) simp_all

lemma rstrip_char_stop: "d \<noteq> c \<Longrightarrow> rstrip_char c (a @ d # b) = a @ d # rstrip_char c b"
  by (simp add: rstrip_char_def dropWhile_stop)

lemma rstrip_char_snoc: "rstrip_char c (s @ [d]) = (if d = c then rstrip_char c s else s @ [d])"
  by (simp add: rstrip_char_def)

lemma rstrip_char_id: "s \<noteq> [] \<Longrightarrow> last s \<noteq> c \<Longrightarrow> rstrip_char c s = s"
  by (induction s rule: rev_induct) (simp_all add: rstrip_char_snoc)

lemma rstrip_char_Nil: "rstrip_char c [] = []"
  by (simp add: rstrip_char_def)

lemma rstrip_zero_digits: "list_all is_digit z \<Longrightarrow> list_all is_digit (rstrip_char c z)"
  by (induction z rule: rev_induct) (simp_all add: rstrip_char_snoc rstrip_char_Nil)

lemma rstrip_last: "rstrip_char c z \<noteq> [] \<Longrightarrow> last (rstrip_char c z) \<noteq> c"
  by (induction z rule: rev_induct) (auto simp: rstrip_char_snoc rstrip_char_Nil split: if_splits)

lemma rstrip_zero_frac:
  "real (digits_value (rstrip_char CHR ''0'' z)) / 10 ^ length (rstrip_char CHR ''0'' z)
     = real (digits_value z) / 10 ^ length z"
proof (induction z rule: rev_induct)
  case Nil
  then show ?case by (simp add: rstrip_char_Nil)
next
  case (snoc c z)
  then show ?case
    by (simp add: rstrip_char_snoc digits_value_snoc digit_val_zero)
qed


lemma replace_char_id: "a \<notin> set s \<Longrightarrow> replace_char a b s = s"
  by (induction s) (auto simp: replace_char_def)

lemma replace_char_append: "replace_char a b (s @ t) = replace_char a b s @ replace_char a b t"
  by (simp add: replace_char_def)

lemma digits_no_char: "list_all is_digit s \<Longrightarrow> \<not> is_digit c \<Longrightarrow> c \<notin> set s"
  by (auto simp: list_all_iff)

lemma last_digit: "list_all is_digit s \<Longrightarrow> s \<noteq> [] \<Longrightarrow> is_digit (last s)"
  by (simp add: list_all_iff)

lemma frac_digits_digits: "0 < n \<Longrightarrow> list_all is_digit (frac_digits k n)"
  unfolding frac_digits_def
  by (intro rstrip_zero_digits zero_pad_props(1) show_nat_digits show_nat_length) simp_all

lemma frac_digits_value:
  assumes "0 < n"
  shows "real (digits_value (frac_digits k n)) / 10 ^ length (frac_digits k n)
           = real (k mod 10 ^ n) / 10 ^ n"
proof -
  have l: "length (show_nat (k mod 10 ^ n)) \<le> n"
    using assms by (intro show_nat_length) simp_all
  show ?thesis
    unfolding frac_digits_def rstrip_zero_frac
    by (simp add: zero_pad_props [OF show_nat_digits l] show_nat_value)
qed

lemma strip_fixed:
  assumes Dd: "list_all is_digit D" and Dne: "D \<noteq> []" and Fd: "list_all is_digit F"
    and S: "CHR ''.'' \<notin> set S"
  shows "replace_char CHR ''.'' CHR '','' (rstrip_char CHR ''.'' ((S @ D) @ CHR ''.'' # F))
           = S @ D @ (if F = [] then [] else CHR '','' # F)"
proof -
  have lastD: "last (S @ D) \<noteq> CHR ''.''"
    using last_digit [OF Dd Dne] Dne not_digit_chars(3) by auto
  have r1: "rstrip_char CHR ''.'' ((S @ D) @ CHR ''.'' # F) =
              (S @ D) @ (if F = [] then [] else CHR ''.'' # F)"
  proof (cases "F = []")
    case True
    have "S @ D \<noteq> []" using Dne by simp
    then have "rstrip_char CHR ''.'' (S @ D) = S @ D" using lastD by (rule rstrip_char_id)
    then have "rstrip_char CHR ''.'' ((S @ D) @ [CHR ''.'']) = S @ D"
      by (simp only: rstrip_char_snoc refl if_True)
    then show ?thesis using True by simp
  next
    case False
    have "last ((S @ D) @ CHR ''.'' # F) \<noteq> CHR ''.''"
      using last_digit [OF Fd False] False not_digit_chars(3) by auto
    then have "rstrip_char CHR ''.'' ((S @ D) @ CHR ''.'' # F) = (S @ D) @ CHR ''.'' # F"
      by (intro rstrip_char_id) simp_all
    then show ?thesis using False by simp
  qed
  have nodotD: "CHR ''.'' \<notin> set D" using digits_no_char [OF Dd not_digit_chars(3)] .
  have nodotF: "CHR ''.'' \<notin> set F" using digits_no_char [OF Fd not_digit_chars(3)] .
  have c: "replace_char CHR ''.'' CHR '','' (CHR ''.'' # F) = CHR '','' # F"
    using replace_char_id [OF nodotF] by (simp add: replace_char_def)
  show ?thesis
    unfolding r1
    by (cases "F = []")
      (simp_all add: replace_char_append replace_char_id [OF S] replace_char_id [OF nodotD] c)
qed

lemma fmt_number_shape:
  assumes n: "0 < n"
  shows "fmt_number (Some x) n =
           (if x < 0 then ''-'' else []) @ show_nat (nat \<bar>round_half_even (x * 10 ^ n)\<bar> div 10 ^ n) @
           (if frac_digits (nat \<bar>round_half_even (x * 10 ^ n)\<bar>) n = [] then []
            else CHR '','' # frac_digits (nat \<bar>round_half_even (x * 10 ^ n)\<bar>) n)"
proof -
  define k where "k = nat \<bar>round_half_even (x * 10 ^ n)\<bar>"
  define S where "S = (if x < 0 then ''-'' else [])"
  define D where "D = show_nat (k div 10 ^ n)"
  define Z where "Z = zero_pad n (show_nat (k mod 10 ^ n))"
  define F where "F = frac_digits k n"
  have dot0: "CHR ''.'' \<noteq> CHR ''0''" by simp
  have fx: "fixed_text (x < 0) k n = (S @ D) @ CHR ''.'' # Z"
    using n by (simp add: fixed_text_def S_def D_def Z_def)
  have FZ: "F = rstrip_char CHR ''0'' Z" by (simp add: F_def Z_def frac_digits_def)
  have r0: "rstrip_char CHR ''0'' (fixed_text (x < 0) k n) = (S @ D) @ CHR ''.'' # F"
    unfolding fx FZ by (rule rstrip_char_stop [OF dot0])
  have Dd: "list_all is_digit D" unfolding D_def by (rule show_nat_digits)
  have Dne: "D \<noteq> []" unfolding D_def by (rule show_nat_nonempty)
  have Fd: "list_all is_digit F" unfolding F_def using n by (rule frac_digits_digits)
  have S: "CHR ''.'' \<notin> set S" by (simp add: S_def)
  have "fmt_number (Some x) n =
      replace_char CHR ''.'' CHR '','' (rstrip_char CHR ''.'' (rstrip_char CHR ''0'' (fixed_text (x < 0) k n)))"
    by (simp add: fmt_number_def k_def Let_def)
  also have "\<dots> = S @ D @ (if F = [] then [] else CHR '','' # F)"
    unfolding r0 by (rule strip_fixed [OF Dd Dne Fd S])
  finally show ?thesis unfolding S_def D_def F_def k_def .
qed


lemma dropWhile_none: "\<forall>c\<in>set s. \<not> P c \<Longrightarrow> dropWhile P s = s"
  by (cases s) simp_all

lemma collapse_spaces_id: "\<forall>c\<in>set s. \<not> is_space c \<Longrightarrow> collapse_spaces s = s"
  by (induction s) simp_all

lemma py_strip_id: "\<forall>c\<in>set s. \<not> is_space c \<Longrightarrow> py_strip s = s"
  by (simp add: py_strip_def dropWhile_none)

lemma nbsp_space: "is_space (CHR 0xA0)"
  by code_simp

lemma clean_spaces_id:
  assumes "\<forall>c\<in>set s. \<not> is_space c"
  shows "clean_spaces s = s"
proof -
  have "CHR 0xA0 \<notin> set s" using assms nbsp_space by blast
  then have "replace_char (CHR 0xA0) CHR '' '' s = s" by (rule replace_char_id)
  then show ?thesis using assms by (simp add: clean_spaces_def collapse_spaces_id py_strip_id)
qed

lemma remove_char_id: "a \<notin> set s \<Longrightarrow> remove_char a s = s"
  by (auto simp: remove_char_def filter_id_conv)

lemma remove_pa_id: "CHR ''p'' \<notin> set s \<Longrightarrow> remove_pa s = s"
  by (induction s rule: remove_pa.induct) auto

lemma span_digits:
  assumes "list_all is_digit D" "t = [] \<or> \<not> is_digit (hd t)"
  shows "takeWhile is_digit (D @ t) = D" "dropWhile is_digit (D @ t) = t"
proof -
  have a: "\<forall>c\<in>set D. is_digit c" using assms(1) by (simp add: list_all_iff)
  have b: "takeWhile is_digit t = []" "dropWhile is_digit t = t"
    using assms(2) by (cases t; simp)+
  show "takeWhile is_digit (D @ t) = D" using a b by (simp add: takeWhile_append2)
  show "dropWhile is_digit (D @ t) = t" using a b by (simp add: dropWhile_append2)
qed

lemma dec_text_span:
  assumes "list_all is_digit D" "\<not> is_digit sep"
  shows "takeWhile is_digit (dec_text D sep F) = D"
    "dropWhile is_digit (dec_text D sep F) = (if F = [] then [] else sep # F)"
  unfolding dec_text_def using span_digits [OF assms(1), of "if F = [] then [] else sep # F"] assms(2)
  by auto

lemma number_at_dec_text:
  assumes D: "list_all is_digit D" and F: "list_all is_digit F"
    and sep: "sep = CHR ''.'' \<or> sep = CHR '',''"
  shows "number_at (dec_text D sep F) = dec_text D sep F"
proof -
  have ns: "\<not> is_digit sep" using sep not_digit_chars by auto
  show ?thesis
  proof (cases F)
    case Nil
    then show ?thesis by (simp add: number_at_def dec_text_span [OF D ns]) (simp add: dec_text_def)
  next
    case (Cons f F')
    then have "is_digit f" "takeWhile is_digit F = F" using F by (simp_all add: list_all_iff)
    then show ?thesis using Cons sep
      by (simp add: number_at_def dec_text_span [OF D ns] Let_def) (simp add: dec_text_def)
  qed
qed

lemma replace_dec_text:
  assumes D: "list_all is_digit D" and F: "list_all is_digit F"
  shows "replace_char CHR '','' CHR ''.'' (dec_text D CHR '','' F) = dec_text D CHR ''.'' F"
proof -
  have "CHR '','' \<notin> set D" "CHR '','' \<notin> set F"
    using digits_no_char [OF D not_digit_chars(4)] digits_no_char [OF F not_digit_chars(4)] by auto
  then have "replace_char CHR '','' CHR ''.'' D = D" "replace_char CHR '','' CHR ''.'' F = F"
    by (simp_all add: replace_char_id)
  then show ?thesis
    by (simp add: dec_text_def replace_char_append) (simp add: replace_char_def)
qed

lemma unsigned_float_dec_text:
  assumes D: "list_all is_digit D" and Dne: "D \<noteq> []" and F: "list_all is_digit F"
  shows "unsigned_float (dec_text D CHR ''.'' F) =
           Some (real (digits_value D) + real (digits_value F) / 10 ^ length F)"
  using Dne F
  by (cases F) (simp_all add: unsigned_float_def dec_text_span [OF D not_digit_chars(3)] digits_value_Nil)


lemma dec_text_chars:
  assumes "list_all is_digit D" "list_all is_digit F" "c \<in> set (dec_text D sep F)"
  shows "is_digit c \<or> c = sep"
  using assms by (auto simp: dec_text_def list_all_iff split: if_splits)

lemma dec_text_Cons:
  assumes "list_all is_digit D" "D \<noteq> []"
  obtains d r where "dec_text D sep F = d # r" "is_digit d"
  using assms by (cases D) (auto simp: dec_text_def)

lemma parse_clean_text:
  assumes "\<forall>c\<in>set s. is_digit c \<or> c = CHR '','' \<or> c = CHR ''-''"
  shows "remove_char CHR ''+'' (remove_pa (remove_char CHR ''%'' (clean_spaces s))) = s"
    and "clean_spaces s = s"
proof -
  have sp: "\<forall>c\<in>set s. \<not> is_space c"
    using assms digit_not_space not_space_chars by blast
  show cs: "clean_spaces s = s" using sp by (rule clean_spaces_id)
  have "CHR ''%'' \<notin> set s" "CHR ''p'' \<notin> set s" "CHR ''+'' \<notin> set s"
    using assms not_digit_chars by fastforce+
  then show "remove_char CHR ''+'' (remove_pa (remove_char CHR ''%'' (clean_spaces s))) = s"
    by (simp add: cs remove_char_id remove_pa_id)
qed

lemma parse_percent_dec_text:
  assumes D: "list_all is_digit D" and Dne: "D \<noteq> []" and F: "list_all is_digit F"
  shows "parse_percent (Some (dec_text D CHR '','' F)) =
           Some (real (digits_value D) + real (digits_value F) / 10 ^ length F)"
    and "parse_percent (Some (CHR ''-'' # dec_text D CHR '','' F)) =
           Some (- (real (digits_value D) + real (digits_value F) / 10 ^ length F))"
proof -
  let ?T = "dec_text D CHR '','' F"
  let ?U = "dec_text D CHR ''.'' F"
  obtain d r where T: "?T = d # r" and d: "is_digit d" using dec_text_Cons [OF D Dne] by metis
  obtain e q where U: "?U = e # q" and e: "is_digit e" using dec_text_Cons [OF D Dne] by metis
  have dm: "d \<noteq> CHR ''-''" "e \<noteq> CHR ''-''" "e \<noteq> CHR ''+''" using d e not_digit_chars by auto
  have chars: "\<forall>c\<in>set ?T. is_digit c \<or> c = CHR '','' \<or> c = CHR ''-''"
    using dec_text_chars [OF D F] by blast
  then have chars': "\<forall>c\<in>set (CHR ''-'' # ?T). is_digit c \<or> c = CHR '','' \<or> c = CHR ''-''"
    by simp
  have na: "number_at ?T = ?T" using number_at_dec_text [OF D F] by simp
  have s1: "search_number ?T = Some ?T"
    using d dm na unfolding T by simp
  have s2: "search_number (CHR ''-'' # ?T) = Some (CHR ''-'' # ?T)"
    using na d by (simp add: T)
  have rp: "replace_char CHR '','' CHR ''.'' ?T = ?U" by (rule replace_dec_text [OF D F])
  have rp2: "replace_char CHR '','' CHR ''.'' (CHR ''-'' # ?T) = CHR ''-'' # ?U"
    using rp by (simp add: replace_char_def)
  have f1: "py_float ?U = unsigned_float ?U"
    using dm by (simp add: py_float_def U)
  have f2: "py_float (CHR ''-'' # ?U) = map_option uminus (unsigned_float ?U)"
    by (simp add: py_float_def)
  have ne: "?T \<noteq> []" using T by simp
  show "parse_percent (Some ?T) =
           Some (real (digits_value D) + real (digits_value F) / 10 ^ length F)"
    using ne
    by (simp add: parse_percent_def parse_clean_text(1) [OF chars] s1 rp f1
        unsigned_float_dec_text [OF D Dne F] del: search_number.simps)
  show "parse_percent (Some (CHR ''-'' # ?T)) =
           Some (- (real (digits_value D) + real (digits_value F) / 10 ^ length F))"
    by (simp add: parse_percent_def parse_clean_text(1) [OF chars'] s2 rp2 f2
        unsigned_float_dec_text [OF D Dne F] del: search_number.simps)
qed

lemma parse_aum_dec_text:
  assumes D: "list_all is_digit D" and Dne: "D \<noteq> []" and F: "list_all is_digit F"
  shows "parse_aum_meur (Some (dec_text D CHR '','' F)) =
           Some (real (digits_value D) + real (digits_value F) / 10 ^ length F)"
    and "parse_aum_meur (Some (CHR ''-'' # dec_text D CHR '','' F)) =
           Some (real (digits_value D) + real (digits_value F) / 10 ^ length F)"
proof -
  let ?T = "dec_text D CHR '','' F"
  let ?U = "dec_text D CHR ''.'' F"
  obtain d r where T: "?T = d # r" and d: "is_digit d" using dec_text_Cons [OF D Dne] by metis
  obtain e q where U: "?U = e # q" and e: "is_digit e" using dec_text_Cons [OF D Dne] by metis
  have dm: "e \<noteq> CHR ''-''" "e \<noteq> CHR ''+''" using e not_digit_chars by auto
  have chars: "\<forall>c\<in>set ?T. is_digit c \<or> c = CHR '','' \<or> c = CHR ''-''"
    using dec_text_chars [OF D F] by blast
  then have chars': "\<forall>c\<in>set (CHR ''-'' # ?T). is_digit c \<or> c = CHR '','' \<or> c = CHR ''-''"
    by simp
  have aum: "\<forall>c\<in>set r. aum_char c"
    using dec_text_chars [OF D F, of _ "CHR '',''"] T by (auto simp: aum_char_def)
  have tw: "takeWhile aum_char r = r" "dropWhile aum_char r = []"
    using aum by simp_all
  have nosp: "CHR '' '' \<notin> set ?T" using chars not_digit_chars by fastforce
  have raw: "replace_char CHR '','' CHR ''.'' (remove_char CHR '' '' (d # r)) = ?U"
    using nosp replace_dec_text [OF D F] by (simp add: remove_char_id T [symmetric])
  have f1: "py_float ?U = unsigned_float ?U"
    using dm by (simp add: py_float_def U)
  have unit: "py_lower [] \<notin> {''mrd'', ''bn'', ''b'', ''md''}" "py_lower [] \<notin> {''k'', ''mille''}"
    by (simp_all add: py_lower_def)
  have core: "(case d # r of [] \<Rightarrow> None
       | d # rest \<Rightarrow>
           (let group1 = d # takeWhile aum_char rest;
                group2 = takeWhile is_alpha_ascii (dropWhile aum_char rest);
                number_raw = replace_char CHR '','' CHR ''.'' (remove_char CHR '' '' group1)
            in case py_float number_raw of
                 None \<Rightarrow> None
               | Some number \<Rightarrow>
                   (let unit = py_lower group2 in
                    if unit \<in> {''mrd'', ''bn'', ''b'', ''md''} then Some (number * 1000)
                    else if unit \<in> {''k'', ''mille''} then Some (number / 1000)
                    else Some number)))
      = Some (real (digits_value D) + real (digits_value F) / 10 ^ length F)"
    using unit
    by (simp only: list.case Let_def tw raw f1 unsigned_float_dec_text [OF D Dne F]
        takeWhile.simps option.case if_False)
  have d1: "dropWhile (\<lambda>c. \<not> is_digit c) ?T = d # r" using d by (simp add: T)
  have d2: "dropWhile (\<lambda>c. \<not> is_digit c) (CHR ''-'' # ?T) = d # r"
    using d not_digit_chars(1) by (simp add: T)
  have ne: "?T \<noteq> []" using T by simp
  show "parse_aum_meur (Some ?T) =
           Some (real (digits_value D) + real (digits_value F) / 10 ^ length F)"
    unfolding parse_aum_meur_def option.case parse_clean_text(2) [OF chars] d1 core
    using ne by simp
  show "parse_aum_meur (Some (CHR ''-'' # ?T)) =
           Some (real (digits_value D) + real (digits_value F) / 10 ^ length F)"
    unfolding parse_aum_meur_def option.case parse_clean_text(2) [OF chars'] d2 core
    by simp
qed


lemma round_half_even_sign:
  "x < 0 \<Longrightarrow> round_half_even x \<le> 0" "0 \<le> x \<Longrightarrow> 0 \<le> round_half_even x"
proof -
  assume "x < 0"
  then have "\<lfloor>x\<rfloor> \<le> -1" by (simp add: floor_le_iff)
  then show "round_half_even x \<le> 0" by (simp add: round_half_even_def Let_def)
next
  assume "0 \<le> x"
  then have "0 \<le> \<lfloor>x\<rfloor>" by simp
  then show "0 \<le> round_half_even x" by (simp add: round_half_even_def Let_def)
qed

lemma round_half_even_close: "\<bar>of_int (round_half_even x) - x\<bar> \<le> 1 / 2"
proof -
  have "of_int \<lfloor>x\<rfloor> \<le> x" "x < of_int \<lfloor>x\<rfloor> + 1" by linarith+
  then show ?thesis by (auto simp: round_half_even_def Let_def)
qed

lemma py_round_close: "\<bar>py_round x n - x\<bar> \<le> 1 / (2 * 10 ^ n)"
proof -
  have h: "\<bar>of_int (round_half_even (x * 10 ^ n)) - x * 10 ^ n\<bar> \<le> 1 / 2"
    by (rule round_half_even_close)
  have "\<bar>of_int (round_half_even (x * 10 ^ n)) - x * 10 ^ n\<bar> / 10 ^ n \<le> (1 / 2) / 10 ^ n"
    using h by (intro divide_right_mono) simp_all
  moreover have "\<bar>of_int (round_half_even (x * 10 ^ n)) - x * 10 ^ n\<bar> / 10 ^ n
      = \<bar>py_round x n - x\<bar>"
  proof -
    have "(of_int (round_half_even (x * 10 ^ n)) - x * 10 ^ n) / 10 ^ n = py_round x n - x"
      by (simp add: py_round_def diff_divide_distrib)
    then have "\<bar>py_round x n - x\<bar> = \<bar>(of_int (round_half_even (x * 10 ^ n)) - x * 10 ^ n) / 10 ^ n\<bar>"
      by simp
    also have "\<dots> = \<bar>of_int (round_half_even (x * 10 ^ n)) - x * 10 ^ n\<bar> / \<bar>10 ^ n\<bar>"
      by (rule abs_divide)
    finally show ?thesis by simp
  qed
  ultimately show ?thesis by simp
qed

lemma div_mod_real: "0 < m \<Longrightarrow> real (k div m) + real (k mod m) / real m = real k / real m"
proof -
  assume m: "0 < m"
  have "real k = real m * real (k div m) + real (k mod m)"
    by (metis of_nat_add of_nat_mult mult_div_mod_eq)
  then show ?thesis using m by (simp add: field_simps)
qed

lemma fmt_number_text:
  fixes x :: real and n :: nat
  assumes n: "0 < n"
  defines "k \<equiv> nat \<bar>round_half_even (x * 10 ^ n)\<bar>"
  shows "fmt_number (Some x) n =
           (if x < 0 then ''-'' else []) @ dec_text (show_nat (k div 10 ^ n)) CHR '','' (frac_digits k n)"
    and "real (digits_value (show_nat (k div 10 ^ n))) +
           real (digits_value (frac_digits k n)) / 10 ^ length (frac_digits k n) = real k / 10 ^ n"
proof -
  show "fmt_number (Some x) n =
           (if x < 0 then ''-'' else []) @ dec_text (show_nat (k div 10 ^ n)) CHR '','' (frac_digits k n)"
    unfolding fmt_number_shape [OF n] k_def dec_text_def ..
  have "real (k div 10 ^ n) + real (k mod 10 ^ n) / real (10 ^ n) = real k / real (10 ^ n)"
    by (rule div_mod_real) simp
  then show "real (digits_value (show_nat (k div 10 ^ n))) +
           real (digits_value (frac_digits k n)) / 10 ^ length (frac_digits k n) = real k / 10 ^ n"
    by (simp add: show_nat_value frac_digits_value [OF n])
qed

text \<open>
  C7 (amended). At every precision of at least one decimal, formatting a value with
  \<open>fmt_number\<close> and parsing the text back with \<open>parse_percent\<close> gives the value rounded
  to that precision, which is within half a unit of the last decimal of the value;
  \<open>parse_aum_meur\<close> does the same for every value that is not negative, and gives the
  rounded magnitude of a negative one, since it reads no sign.
\<close>

theorem fmt_number_round_trip:
  "0 < n \<longrightarrow>
     parse_percent (Some (fmt_number (Some x) n)) = Some (py_round x n)
     \<and> \<bar>py_round x n - x\<bar> \<le> 1 / (2 * 10 ^ n)
     \<and> (0 \<le> x \<longrightarrow> parse_aum_meur (Some (fmt_number (Some x) n)) = Some (py_round x n))
     \<and> (x < 0 \<longrightarrow> parse_aum_meur (Some (fmt_number (Some x) n)) = Some (- py_round x n))"
proof
  assume n: "0 < n"
  define k where "k = nat \<bar>round_half_even (x * 10 ^ n)\<bar>"
  define D where "D = show_nat (k div 10 ^ n)"
  define F where "F = frac_digits k n"
  have D: "list_all is_digit D" "D \<noteq> []"
    unfolding D_def by (rule show_nat_digits, rule show_nat_nonempty)
  have F: "list_all is_digit F" unfolding F_def using n by (rule frac_digits_digits)
  have tx: "fmt_number (Some x) n = (if x < 0 then ''-'' else []) @ dec_text D CHR '','' F"
    unfolding D_def F_def k_def by (rule fmt_number_text(1) [OF n])
  have val: "real (digits_value D) + real (digits_value F) / 10 ^ length F = real k / 10 ^ n"
    unfolding D_def F_def k_def by (rule fmt_number_text(2) [OF n])
  have pos: "py_round x n = real k / 10 ^ n" if "0 \<le> x"
  proof -
    have "0 \<le> round_half_even (x * 10 ^ n)" using that by (intro round_half_even_sign) simp
    then show ?thesis by (simp add: py_round_def k_def)
  qed
  have neg: "py_round x n = - (real k / 10 ^ n)" if "x < 0"
  proof -
    have "x * 10 ^ n < 0" using that by (simp add: mult_less_0_iff)
    then have "round_half_even (x * 10 ^ n) \<le> 0" by (rule round_half_even_sign)
    then have "real_of_int (round_half_even (x * 10 ^ n)) = - real k" by (simp add: k_def)
    then show ?thesis by (simp add: py_round_def)
  qed
  have pp: "parse_percent (Some (fmt_number (Some x) n)) = Some (py_round x n)"
  proof (cases "x < 0")
    case True
    then show ?thesis using parse_percent_dec_text(2) [OF D F] neg val by (simp add: tx)
  next
    case False
    then show ?thesis using parse_percent_dec_text(1) [OF D F] pos val by (simp add: tx)
  qed
  have pa: "parse_aum_meur (Some (fmt_number (Some x) n)) = Some (py_round x n)" if "0 \<le> x"
    using that parse_aum_dec_text(1) [OF D F] pos val by (simp add: tx)
  have pn: "parse_aum_meur (Some (fmt_number (Some x) n)) = Some (- py_round x n)" if "x < 0"
    using that parse_aum_dec_text(2) [OF D F] neg val by (simp add: tx)
  show "parse_percent (Some (fmt_number (Some x) n)) = Some (py_round x n)
     \<and> \<bar>py_round x n - x\<bar> \<le> 1 / (2 * 10 ^ n)
     \<and> (0 \<le> x \<longrightarrow> parse_aum_meur (Some (fmt_number (Some x) n)) = Some (py_round x n))
     \<and> (x < 0 \<longrightarrow> parse_aum_meur (Some (fmt_number (Some x) n)) = Some (- py_round x n))"
    using pp pa pn py_round_close by blast
qed


theorem fmt_number_round_trip_witness:
  "parse_percent (Some (fmt_number (Some 12.3456) 2)) = Some 12.35
   \<and> \<bar>py_round 12.3456 2 - 12.3456\<bar> \<le> 1 / (2 * 10 ^ 2)
   \<and> parse_aum_meur (Some (fmt_number (Some 12.3456) 2)) = Some 12.35
   \<and> parse_percent (Some (fmt_number (Some (- 0.25)) 1)) = Some (- 0.2)
   \<and> parse_aum_meur (Some (fmt_number (Some (- 0.25)) 1)) = Some 0.2"
proof -
  have a: "py_round 12.3456 2 = 12.35" by code_simp
  have b: "py_round (- 0.25) 1 = - 0.2" by code_simp
  have n: "(0::nat) < 2" "(0::nat) < 1" "(0::real) \<le> 12.3456" "(- 0.25 :: real) < 0" by simp_all
  show ?thesis
    using fmt_number_round_trip [of 2 "12.3456"] fmt_number_round_trip [of 1 "- 0.25"] a b n
    by simp
qed

text \<open>
  The round trip as first stated fails: \<open>parse_aum_meur\<close> reads \<open>-5\<close> back as 5, and at
  precision 0 the text of 10 is \<open>1\<close>, its zero stripped.
\<close>

theorem fmt_number_round_trip_counterexample:
  "fmt_number (Some (- 5)) 3 = ''-5''
   \<and> parse_aum_meur (Some (fmt_number (Some (- 5)) 3)) = Some 5
   \<and> \<not> (\<forall>x n. \<exists>y. parse_aum_meur (Some (fmt_number (Some x) n)) = Some y \<and> \<bar>y - x\<bar> \<le> 1 / 10 ^ n)
   \<and> fmt_number (Some 10) 0 = ''1''
   \<and> parse_percent (Some (fmt_number (Some 10) 0)) = Some 1
   \<and> \<not> (\<forall>x n. \<exists>y. parse_percent (Some (fmt_number (Some x) n)) = Some y \<and> \<bar>y - x\<bar> \<le> 1 / 10 ^ n)"
proof -
  have f1: "fmt_number (Some (- 5)) 3 = ''-5''" by code_simp
  have p1: "parse_aum_meur (Some ''-5'') = Some 5" by code_simp
  have f2: "fmt_number (Some 10) 0 = ''1''" by code_simp
  have p2: "parse_percent (Some ''1'') = Some 1" by code_simp
  have n1: "\<not> (\<forall>x n. \<exists>y. parse_aum_meur (Some (fmt_number (Some x) n)) = Some y \<and> \<bar>y - x\<bar> \<le> 1 / 10 ^ n)"
  proof
    assume "\<forall>x n. \<exists>y. parse_aum_meur (Some (fmt_number (Some x) n)) = Some y \<and> \<bar>y - x\<bar> \<le> 1 / 10 ^ n"
    then obtain y where "parse_aum_meur (Some (fmt_number (Some (- 5)) 3)) = Some y"
      "\<bar>y - (- 5)\<bar> \<le> 1 / 10 ^ 3" by blast
    then show False using f1 p1 by simp
  qed
  have n2: "\<not> (\<forall>x n. \<exists>y. parse_percent (Some (fmt_number (Some x) n)) = Some y \<and> \<bar>y - x\<bar> \<le> 1 / 10 ^ n)"
  proof
    assume "\<forall>x n. \<exists>y. parse_percent (Some (fmt_number (Some x) n)) = Some y \<and> \<bar>y - x\<bar> \<le> 1 / 10 ^ n"
    then obtain y where "parse_percent (Some (fmt_number (Some 10) 0)) = Some y"
      "\<bar>y - 10\<bar> \<le> 1 / 10 ^ 0" by blast
    then show False using f2 p2 by simp
  qed
  show ?thesis using f1 p1 f2 p2 n1 n2 by simp
qed

subsection \<open>Compound annual growth rate of a grid\<close>


















subsection \<open>Writing cells\<close>

lemma ensure_row_eq:
  "ensure_row cc m idx = m @ replicate (Suc idx - length m) (blank_row cc)"
proof (induction cc m idx rule: ensure_row.induct)
  case (1 cc m idx)
  show ?case
  proof (cases "length m \<le> idx")
    case True
    then have "Suc idx - length m = Suc (idx - length m)" by simp
    then show ?thesis using 1 [OF True] True
      by (subst ensure_row.simps) (simp add: replicate_app_Cons_same)
  next
    case False
    then show ?thesis by (subst ensure_row.simps) simp
  qed
qed

lemma wf_ensure_row: "wf_matrix cc m \<Longrightarrow> wf_matrix cc (ensure_row cc m idx)"
  by (auto simp: ensure_row_eq wf_matrix_def blank_row_def list_all_iff)

lemma length_ensure_row: "length (ensure_row cc m idx) = max (length m) (Suc idx)"
  by (simp add: ensure_row_eq)

lemma wf_nth: "wf_matrix cc m \<Longrightarrow> r < length m \<Longrightarrow> length (m ! r) = cc"
  by (simp add: wf_matrix_def list_all_length)

lemma old_cell_ensure_row:
  "c < cc \<Longrightarrow> old_cell (ensure_row cc m idx) r c = old_cell m r c"
  by (auto simp: old_cell_def ensure_row_eq nth_append blank_row_def)

lemma set_cell_ok:
  assumes "wf_matrix cc m" "c < cc"
  obtains m' where "set_cell cc m r c v = Inr m'" "wf_matrix cc m'"
    "length m' = max (length m) (Suc r)"
    "\<And>r' c'. c' < cc \<Longrightarrow> old_cell m' r' c' = (if r' = r \<and> c' = c then v else old_cell m r' c')"
proof -
  let ?e = "ensure_row cc m r"
  let ?m = "?e[r := (?e ! r)[c := v]]"
  have w: "wf_matrix cc ?e" using assms(1) by (rule wf_ensure_row)
  have r: "r < length ?e" by (simp add: length_ensure_row)
  have l: "length (?e ! r) = cc" using w r by (rule wf_nth)
  have 1: "set_cell cc m r c v = Inr ?m" using l assms(2) by (simp add: set_cell_def Let_def)
  have 2: "wf_matrix cc ?m"
    using w l by (auto simp: wf_matrix_def list_all_iff dest!: set_update_subset_insert [THEN subsetD])
  have 3: "length ?m = max (length m) (Suc r)" by (simp add: length_ensure_row)
  have 4: "old_cell ?m r' c' = (if r' = r \<and> c' = c then v else old_cell m r' c')" if "c' < cc" for r' c'
  proof -
    have "old_cell ?m r' c' = (if r' = r \<and> c' = c then v else old_cell ?e r' c')"
      using r l assms(2) that by (auto simp: old_cell_def nth_list_update)
    then show ?thesis using old_cell_ensure_row [OF that] by simp
  qed
  show ?thesis using that 1 2 3 4 by blast
qed

lemma set_cell_fail:
  assumes "wf_matrix cc m" "\<not> c < cc"
  shows "set_cell cc m r c v = Inl IndexError"
proof -
  let ?e = "ensure_row cc m r"
  have "length (?e ! r) = cc"
    using wf_ensure_row [OF assms(1)] by (intro wf_nth) (simp_all add: length_ensure_row)
  then show ?thesis using assms(2) by (simp add: set_cell_def Let_def)
qed

lemma set_cells_ok:
  assumes "wf_matrix cc m" "\<forall>w\<in>set ws. fst (snd w) < cc"
  shows "\<exists>m'. set_cells cc ws m = Inr m' \<and> wf_matrix cc m' \<and> length m' = rows_needed ws (length m)
           \<and> (\<forall>r c. c < cc \<longrightarrow> old_cell m' r c = last_write ws r c (old_cell m r c))"
  using assms
proof (induction ws arbitrary: m)
  case Nil
  then show ?case by (simp add: rows_needed_def last_write_def)
next
  case (Cons w ws)
  obtain r c v where w: "w = (r, c, v)" by (cases w) auto
  have c: "c < cc" using Cons.prems(2) w by simp
  obtain m1 where m1: "set_cell cc m r c v = Inr m1" "wf_matrix cc m1"
    "length m1 = max (length m) (Suc r)"
    "\<And>r' c'. c' < cc \<Longrightarrow> old_cell m1 r' c' = (if r' = r \<and> c' = c then v else old_cell m r' c')"
    using set_cell_ok [OF Cons.prems(1) c] by metis
  have rest: "\<forall>w\<in>set ws. fst (snd w) < cc" using Cons.prems(2) by simp
  obtain m' where m': "set_cells cc ws m1 = Inr m'" "wf_matrix cc m'"
    "length m' = rows_needed ws (length m1)"
    "\<forall>r c. c < cc \<longrightarrow> old_cell m' r c = last_write ws r c (old_cell m1 r c)"
    using Cons.IH [OF m1(2) rest] by blast
  have "set_cells cc (w # ws) m = Inr m'" using m1(1) m'(1) w by simp
  moreover have "length m' = rows_needed (w # ws) (length m)"
    using m'(3) m1(3) w by (simp add: rows_needed_def)
  moreover have "old_cell m' r' c' = last_write (w # ws) r' c' (old_cell m r' c')" if "c' < cc" for r' c'
    using m'(4) m1(4) [OF that] that w by (simp add: last_write_def)
  ultimately show ?case using m'(2) by blast
qed

lemma set_cells_fail:
  assumes "wf_matrix cc m" "\<exists>w\<in>set ws. \<not> fst (snd w) < cc"
  shows "set_cells cc ws m = Inl IndexError"
  using assms
proof (induction ws arbitrary: m)
  case Nil
  then show ?case by simp
next
  case (Cons w ws)
  obtain r c v where w: "w = (r, c, v)" by (cases w) auto
  show ?case
  proof (cases "c < cc")
    case False
    then show ?thesis using set_cell_fail [OF Cons.prems(1) False] w by simp
  next
    case True
    obtain m1 where m1: "set_cell cc m r c v = Inr m1" "wf_matrix cc m1"
      using set_cell_ok [OF Cons.prems(1) True] by metis
    have "\<exists>w\<in>set ws. \<not> fst (snd w) < cc" using Cons.prems(2) True w by auto
    then show ?thesis using Cons.IH [OF m1(2)] m1(1) w by simp
  qed
qed

lemma rows_needed_ge: "n \<le> rows_needed ws n"
  unfolding rows_needed_def
proof (induction ws arbitrary: n)
  case Nil
  then show ?case by simp
next
  case (Cons w ws)
  have "max n (Suc (fst w)) \<le> fold (\<lambda>w k. max k (Suc (fst w))) ws (max n (Suc (fst w)))"
    by (rule Cons.IH)
  then show ?case by simp
qed

lemma rows_needed_mem: "w \<in> set ws \<Longrightarrow> fst w < rows_needed ws n"
proof (induction ws arbitrary: n)
  case Nil
  then show ?case by simp
next
  case (Cons a ws)
  show ?case
  proof (cases "w = a")
    case True
    have "max n (Suc (fst a)) \<le> rows_needed ws (max n (Suc (fst a)))" by (rule rows_needed_ge)
    then show ?thesis using True by (simp add: rows_needed_def)
  next
    case False
    then have "w \<in> set ws" using Cons.prems by simp
    then show ?thesis using Cons.IH by (simp add: rows_needed_def)
  qed
qed

lemma last_write_unique:
  assumes "(r, c, v) \<in> set ws" "\<forall>v'. (r, c, v') \<in> set ws \<longrightarrow> v' = v"
  shows "last_write ws r c d = v"
  using assms
proof (induction ws arbitrary: d rule: rev_induct)
  case Nil
  then show ?case by simp
next
  case (snoc w ws)
  obtain r' c' v' where w: "w = (r', c', v')" by (cases w) auto
  show ?case
  proof (cases "r' = r \<and> c' = c")
    case True
    then have "v' = v" using snoc.prems(2) w by auto
    then show ?thesis using True w by (simp add: last_write_def)
  next
    case False
    then have "(r, c, v) \<in> set ws" using snoc.prems(1) w by auto
    moreover have "\<forall>v'. (r, c, v') \<in> set ws \<longrightarrow> v' = v" using snoc.prems(2) by auto
    ultimately have "last_write ws r c d = v" by (rule snoc.IH)
    then show ?thesis using False w by (auto simp: last_write_def)
  qed
qed

lemma last_write_none:
  assumes "\<forall>v. (r, c, v) \<notin> set ws"
  shows "last_write ws r c d = d"
  using assms
proof (induction ws arbitrary: d)
  case Nil
  then show ?case by (simp add: last_write_def)
next
  case (Cons w ws)
  obtain r' c' v' where w: "w = (r', c', v')" by (cases w) auto
  have "\<not> (r' = r \<and> c' = c)" using Cons.prems w by auto
  moreover have "last_write ws r c d = d" using Cons.prems by (intro Cons.IH) auto
  ultimately show ?case using w by (auto simp: last_write_def)
qed

text \<open>A run from the empty matrix.\<close>

lemma set_cells_from_empty:
  assumes "\<forall>w\<in>set ws. fst (snd w) < cc"
  obtains m where "set_cells cc ws [] = Inr m" "length m = rows_needed ws 0"
    "\<And>r c v. (r, c, v) \<in> set ws \<Longrightarrow> (\<forall>v'. (r, c, v') \<in> set ws \<longrightarrow> v' = v) \<Longrightarrow> m ! r ! c = v"
    "\<And>r c. r < length m \<Longrightarrow> c < cc \<Longrightarrow> (\<forall>v. (r, c, v) \<notin> set ws) \<Longrightarrow> m ! r ! c = []"
    "\<And>r. r < length m \<Longrightarrow> length (m ! r) = cc"
proof -
  have w0: "wf_matrix cc []" by (simp add: wf_matrix_def)
  obtain m where m: "set_cells cc ws [] = Inr m" "wf_matrix cc m" "length m = rows_needed ws (length ([] :: matrix))"
    "\<forall>r c. c < cc \<longrightarrow> old_cell m r c = last_write ws r c (old_cell [] r c)"
    using set_cells_ok [OF w0 assms] by blast
  have lw: "old_cell m r c = last_write ws r c (old_cell [] r c)" if "c < cc" for r c
    using m(4) that by simp
  have a: "m ! r ! c = v" if "(r, c, v) \<in> set ws" "\<forall>v'. (r, c, v') \<in> set ws \<longrightarrow> v' = v" for r c v
  proof -
    have c: "c < cc" using assms that(1) by fastforce
    have "r < length m" using rows_needed_mem [OF that(1), of 0] m(3) by simp
    then have "old_cell m r c = m ! r ! c" by (simp add: old_cell_def)
    then show ?thesis using lw [OF c] last_write_unique [OF that] by simp
  qed
  have b: "m ! r ! c = []" if "r < length m" "c < cc" "\<forall>v. (r, c, v) \<notin> set ws" for r c
  proof -
    have "old_cell m r c = m ! r ! c" using that(1) by (simp add: old_cell_def)
    then show ?thesis using lw [OF that(2)] last_write_none [OF that(3)] by (simp add: old_cell_def)
  qed
  have c: "length (m ! r) = cc" if "r < length m" for r using m(2) that by (rule wf_nth)
  have l: "length m = rows_needed ws 0" using m(3) by simp
  show ?thesis
  proof (rule that [OF m(1) l])
    show "m ! r ! c = v" if "(r, c, v) \<in> set ws" "\<forall>v'. (r, c, v') \<in> set ws \<longrightarrow> v' = v" for r c v
      using that by (rule a)
    show "m ! r ! c = []" if "r < length m" "c < cc" "\<forall>v. (r, c, v) \<notin> set ws" for r c
      using that by (rule b)
    show "length (m ! r) = cc" if "r < length m" for r using that by (rule c)
  qed
qed

subsection \<open>The calls of a projection run\<close>

lemma parameter_writes_mem:
  assumes "w \<in> set (parameter_writes years ci infl dca)"
  shows "fst w \<le> 10" "fst (snd w) \<le> 1" "4 < fst w \<Longrightarrow> fst (snd w) = 0"
proof -
  have "list_all (\<lambda>w. fst w \<le> 10 \<and> fst (snd w) \<le> 1 \<and> (4 < fst w \<longrightarrow> fst (snd w) = 0))
          (parameter_writes years ci infl dca)"
    unfolding parameter_writes_def by simp
  then have a: "fst w \<le> 10 \<and> fst (snd w) \<le> 1 \<and> (4 < fst w \<longrightarrow> fst (snd w) = 0)"
    using assms unfolding list_all_iff by blast
  show "fst w \<le> 10" "fst (snd w) \<le> 1" "4 < fst w \<Longrightarrow> fst (snd w) = 0" using a by blast+
qed

lemma rate_column_mem:
  assumes "w \<in> set (rate_column ro idx row)"
  shows "fst (snd w) = idx - 1" "6 \<le> fst w" "fst w \<le> 10"
    "fst w = 8 \<Longrightarrow> snd (snd w) = ''='' @ fmt_number (Some ((case CAGR row of Some c \<Rightarrow> c | None \<Rightarrow> 0) / 100)) 10"
    "fst w = 9 \<Longrightarrow> snd (snd w) = ''='' @ fmt_number (Some ((case TER row of Some t \<Rightarrow> t | None \<Rightarrow> 0) / 100)) 10"
proof -
  let ?cv = "''='' @ fmt_number (Some ((case CAGR row of Some c \<Rightarrow> c | None \<Rightarrow> 0) / 100)) 10"
  let ?tv = "''='' @ fmt_number (Some ((case TER row of Some t \<Rightarrow> t | None \<Rightarrow> 0) / 100)) 10"
  have "list_all (\<lambda>w. fst (snd w) = idx - 1 \<and> 6 \<le> fst w \<and> fst w \<le> 10
            \<and> (fst w = 8 \<longrightarrow> snd (snd w) = ?cv) \<and> (fst w = 9 \<longrightarrow> snd (snd w) = ?tv))
          (rate_column ro idx row)"
    unfolding rate_column_def Let_def by simp
  then have a: "fst (snd w) = idx - 1 \<and> 6 \<le> fst w \<and> fst w \<le> 10
            \<and> (fst w = 8 \<longrightarrow> snd (snd w) = ?cv) \<and> (fst w = 9 \<longrightarrow> snd (snd w) = ?tv)"
    using assms unfolding list_all_iff by blast
  show "fst (snd w) = idx - 1" "6 \<le> fst w" "fst w \<le> 10"
    "fst w = 8 \<Longrightarrow> snd (snd w) = ?cv" "fst w = 9 \<Longrightarrow> snd (snd w) = ?tv"
    using a by blast+
qed

lemma rate_column_has:
  "(8, idx - 1, ''='' @ fmt_number (Some ((case CAGR row of Some c \<Rightarrow> c | None \<Rightarrow> 0) / 100)) 10)
     \<in> set (rate_column ro idx row)"
  "(9, idx - 1, ''='' @ fmt_number (Some ((case TER row of Some t \<Rightarrow> t | None \<Rightarrow> 0) / 100)) 10)
     \<in> set (rate_column ro idx row)"
  unfolding rate_column_def Let_def by simp_all

lemma rate_writes_mem:
  assumes "w \<in> set (rate_writes ro etfs)"
  obtains i where "i < length etfs" "w \<in> set (rate_column ro (i + 2) (etfs ! i))"
proof -
  from assms obtain idx row where ir: "(idx, row) \<in> set (enumerate 2 etfs)"
    and w: "w \<in> set (rate_column ro idx row)"
    unfolding rate_writes_def by auto
  from ir have i: "2 \<le> idx" "idx < 2 + length etfs" "row = etfs ! (idx - 2)"
    by (auto simp: in_set_enumerate_eq)
  have "idx - 2 < length etfs" "idx = (idx - 2) + 2" using i by simp_all
  then show ?thesis using that [of "idx - 2"] w i(3) by simp
qed

lemma rate_writes_has:
  assumes "i < length etfs" "w \<in> set (rate_column ro (i + 2) (etfs ! i))"
  shows "w \<in> set (rate_writes ro etfs)"
proof -
  have "(i + 2, etfs ! i) \<in> set (enumerate 2 etfs)"
    using assms(1) by (auto simp: in_set_enumerate_eq)
  then show ?thesis using assms(2) unfolding rate_writes_def by force
qed

lemma header_writes_mem:
  assumes "w \<in> set (header_writes h label etfs)"
  shows "fst w = h" "fst (snd w) \<le> length etfs"
proof -
  from assms have "w = (h, 0, label) \<or>
      (\<exists>p\<in>set (enumerate 2 etfs). w = (case p of (idx, row) \<Rightarrow> (h, idx - 1, ISIN row)))"
    unfolding header_writes_def set_simps set_map by blast
  then have "w = (h, 0, label) \<or>
      (\<exists>idx row. (idx, row) \<in> set (enumerate 2 etfs) \<and> w = (h, idx - 1, ISIN row))"
    by (simp add: Bex_def split_paired_Ex)
  then consider "w = (h, 0, label)"
    | idx row where "(idx, row) \<in> set (enumerate 2 etfs)" "w = (h, idx - 1, ISIN row)"
    by blast
  then have "fst w = h \<and> fst (snd w) \<le> length etfs"
  proof cases
    case 1
    then show ?thesis by simp
  next
    case 2
    from 2(1) have "idx < 2 + length etfs" by (simp add: in_set_enumerate_eq)
    then show ?thesis using 2(2) by simp
  qed
  then show "fst w = h" "fst (snd w) \<le> length etfs" by blast+
qed

lemma growth_cell_props:
  "fst (growth_cell ref r y idx) = r" "fst (snd (growth_cell ref r y idx)) = idx - 1"
  by (simp_all add: growth_cell_def Let_def)

lemma growth_writes_mem:
  assumes "w \<in> set (growth_writes ref start years n)"
  shows "start \<le> fst w" "fst w \<le> start + years" "fst (snd w) \<le> n"
proof -
  from assms obtain y where y: "y \<in> set [0..<years + 1]"
    and w: "w \<in> set ((start + y, 0, show_nat y) # map (growth_cell ref (start + y) y) [2..<2 + n])"
    unfolding growth_writes_def Let_def set_concat set_map by blast
  from w consider "w = (start + y, 0, show_nat y)"
    | idx where "idx \<in> set [2..<2 + n]" "w = growth_cell ref (start + y) y idx"
    unfolding set_simps set_map by blast
  then have "fst w = start + y \<and> fst (snd w) \<le> n"
  proof cases
    case 1
    then show ?thesis by simp
  next
    case 2
    from 2(1) have "idx < 2 + n" by (simp only: set_upt atLeastLessThan_iff)
    then show ?thesis using 2(2) by (simp add: growth_cell_props)
  qed
  moreover have "y \<le> years" using y by auto
  ultimately show "start \<le> fst w" "fst w \<le> start + years" "fst (snd w) \<le> n" by simp_all
qed

lemma summary_row_mem:
  assumes "w \<in> set (summary_row ro sh nf ncf i row)"
  shows "fst w = sh + i" "fst (snd w) \<le> 5"
proof -
  have "list_all (\<lambda>w. fst w = sh + i \<and> fst (snd w) \<le> 5) (summary_row ro sh nf ncf i row)"
    unfolding summary_row_def Let_def by simp
  then have a: "fst w = sh + i \<and> fst (snd w) \<le> 5"
    using assms unfolding list_all_iff by blast
  show "fst w = sh + i" "fst (snd w) \<le> 5" using a by blast+
qed

lemma summary_writes_mem:
  assumes "w \<in> set (summary_writes ro sh nf ncf etfs)"
  shows "sh \<le> fst w" "fst (snd w) \<le> 5"
proof -
  let ?hd = "[(sh, 0 :: nat, ''ISIN''), (sh, 1, ''Nom ETF''), (sh, 2, ''Capital final net reel''),
      (sh, 3, ''Capital final sans frais''), (sh, 4, ''Manque a gagner''), (sh, 5, ''Manque a gagner %'')]"
  have h: "list_all (\<lambda>w. sh \<le> fst w \<and> fst (snd w) \<le> 5) ?hd" by simp
  from assms have "w \<in> set ?hd \<or>
      (\<exists>p\<in>set (enumerate 1 etfs). w \<in> set (case p of (i, row) \<Rightarrow> summary_row ro sh nf ncf i row))"
    unfolding summary_writes_def set_append Un_iff set_concat set_map by blast
  then have "w \<in> set ?hd \<or> (\<exists>i row. w \<in> set (summary_row ro sh nf ncf i row))"
    by (simp only: Bex_def split_paired_Ex prod.case) blast
  then consider "w \<in> set ?hd"
    | i row where "w \<in> set (summary_row ro sh nf ncf i row)"
    by blast
  then have "sh \<le> fst w \<and> fst (snd w) \<le> 5"
  proof cases
    case 1
    then show ?thesis using h unfolding list_all_iff by blast
  next
    case 2
    then show ?thesis using summary_row_mem [OF 2] by simp
  qed
  then show "sh \<le> fst w" "fst (snd w) \<le> 5" by blast+
qed

lemma summary_writes_has: "(sh, 5, ''Manque a gagner %'') \<in> set (summary_writes ro sh nf ncf etfs)"
  by (simp add: summary_writes_def)

lemma projection_writes_mem:
  assumes "w \<in> set (projection_writes ro etfs years ci infl dca)"
  shows "w \<in> set (parameter_writes years ci infl dca) \<or> w \<in> set (rate_writes ro etfs)
     \<or> w \<in> set (header_writes 12 ''Annee'' etfs)
     \<or> w \<in> set (growth_writes ''$11'' (12 + 1) years (length etfs))
     \<or> w \<in> set (header_writes (12 + 1 + years + 3) ''Annee (sans frais)'' etfs)
     \<or> w \<in> set (growth_writes ''$9'' (12 + 1 + years + 3 + 1) years (length etfs))
     \<or> w \<in> set (summary_writes ro (12 + 1 + years + 3 + 1 + years + 3) (12 + 1 + years)
            (12 + 1 + years + 3 + 1 + years) etfs)"
  using assms unfolding projection_writes_def Let_def set_append Un_iff by blast

lemma projection_writes_has:
  "w \<in> set (rate_writes ro etfs) \<Longrightarrow> w \<in> set (projection_writes ro etfs years ci infl dca)"
  "w \<in> set (growth_writes ''$11'' (12 + 1) years (length etfs))
     \<Longrightarrow> w \<in> set (projection_writes ro etfs years ci infl dca)"
  "w \<in> set (growth_writes ''$9'' (12 + 1 + years + 3 + 1) years (length etfs))
     \<Longrightarrow> w \<in> set (projection_writes ro etfs years ci infl dca)"
  "w \<in> set (summary_writes ro (12 + 1 + years + 3 + 1 + years + 3) (12 + 1 + years)
            (12 + 1 + years + 3 + 1 + years) etfs)
     \<Longrightarrow> w \<in> set (projection_writes ro etfs years ci infl dca)"
  unfolding projection_writes_def Let_def set_append Un_iff by blast+

lemma projection_columns:
  assumes "5 \<le> length etfs" "w \<in> set (projection_writes ro etfs years ci infl dca)"
  shows "fst (snd w) < 1 + length etfs"
proof -
  consider "w \<in> set (parameter_writes years ci infl dca)" | "w \<in> set (rate_writes ro etfs)"
    | h where "w \<in> set (header_writes h ''Annee'' etfs)"
    | h where "w \<in> set (header_writes h ''Annee (sans frais)'' etfs)"
    | ref s where "w \<in> set (growth_writes ref s years (length etfs))"
    | sh nf ncf where "w \<in> set (summary_writes ro sh nf ncf etfs)"
    using projection_writes_mem [OF assms(2)] by blast
  then show ?thesis
  proof cases
    case 1
    then show ?thesis using parameter_writes_mem(2) [OF 1] assms(1) by simp
  next
    case 2
    then obtain i where "i < length etfs" "w \<in> set (rate_column ro (i + 2) (etfs ! i))"
      by (rule rate_writes_mem)
    then show ?thesis using rate_column_mem(1) by fastforce
  next
    case 3
    then show ?thesis using header_writes_mem(2) [OF 3] by simp
  next
    case 4
    then show ?thesis using header_writes_mem(2) [OF 4] by simp
  next
    case 5
    then show ?thesis using growth_writes_mem(3) [OF 5] by simp
  next
    case 6
    then show ?thesis using summary_writes_mem(2) [OF 6] assms(1) by simp
  qed
qed

lemma projection_raises:
  assumes "etfs \<noteq> []" "length etfs < 5"
  shows "write_projection_csv ro etfs years ci infl dca = Inl IndexError"
proof -
  let ?w = "(12 + 1 + years + 3 + 1 + years + 3, 5 :: nat, ''Manque a gagner %'')"
  have "?w \<in> set (projection_writes ro etfs years ci infl dca)"
    by (intro projection_writes_has(4) summary_writes_has)
  moreover have "\<not> fst (snd ?w) < 1 + length etfs" using assms(2) by simp
  ultimately have "\<exists>w\<in>set (projection_writes ro etfs years ci infl dca). \<not> fst (snd w) < 1 + length etfs"
    by blast
  moreover have "wf_matrix (1 + length etfs) []" by (simp add: wf_matrix_def)
  ultimately have "set_cells (1 + length etfs) (projection_writes ro etfs years ci infl dca) [] = Inl IndexError"
    by (intro set_cells_fail)
  then show ?thesis using assms(1) by (simp add: write_projection_csv_def Let_def)
qed

subsection \<open>The projection sheet\<close>

lemma rstrip_char_all: "rstrip_char c (replicate j c) = []"
  by (simp add: rstrip_char_def)

lemma show_nat_zero: "show_nat 0 = ''0''"
  by code_simp

lemma fmt_number_zero:
  assumes "0 < n"
  shows "fmt_number (Some 0) n = ''0''"
proof -
  have r: "round_half_even 0 = 0" by (simp add: round_half_even_def)
  have "zero_pad n ''0'' = replicate n CHR ''0''"
    using assms by (cases n) (simp_all add: zero_pad_def replicate_append_same)
  then have f: "frac_digits 0 n = []"
    by (simp add: frac_digits_def show_nat_zero rstrip_char_all)
  show ?thesis using fmt_number_shape [OF assms, of 0] r f by (simp add: show_nat_zero)
qed

lemma projection_ok:
  assumes "5 \<le> length etfs"
  obtains m where "write_projection_csv ro etfs years ci infl dca = Inr m"
    "\<And>r c v. (r, c, v) \<in> set (projection_writes ro etfs years ci infl dca) \<Longrightarrow>
       (\<forall>v'. (r, c, v') \<in> set (projection_writes ro etfs years ci infl dca) \<longrightarrow> v' = v) \<Longrightarrow>
       m ! r ! c = v"
    "\<And>r c. r < length m \<Longrightarrow> c < 1 + length etfs \<Longrightarrow>
       (\<forall>v. (r, c, v) \<notin> set (projection_writes ro etfs years ci infl dca)) \<Longrightarrow> m ! r ! c = []"
    "length m = rows_needed (projection_writes ro etfs years ci infl dca) 0"
    "\<And>r. r < length m \<Longrightarrow> length (m ! r) = 1 + length etfs"
proof -
  let ?ws = "projection_writes ro etfs years ci infl dca"
  have cols: "\<forall>w\<in>set ?ws. fst (snd w) < 1 + length etfs"
    using projection_columns [OF assms] by blast
  have ne: "etfs \<noteq> []" using assms by auto
  show ?thesis
  proof (rule set_cells_from_empty [OF cols])
    fix m
    assume m: "set_cells (1 + length etfs) ?ws [] = Inr m" "length m = rows_needed ?ws 0"
      "\<And>r c v. (r, c, v) \<in> set ?ws \<Longrightarrow> (\<forall>v'. (r, c, v') \<in> set ?ws \<longrightarrow> v' = v) \<Longrightarrow> m ! r ! c = v"
      "\<And>r c. r < length m \<Longrightarrow> c < 1 + length etfs \<Longrightarrow> (\<forall>v. (r, c, v) \<notin> set ?ws) \<Longrightarrow> m ! r ! c = []"
      "\<And>r. r < length m \<Longrightarrow> length (m ! r) = 1 + length etfs"
    have w: "write_projection_csv ro etfs years ci infl dca = Inr m"
      using ne m(1) by (simp add: write_projection_csv_def Let_def)
    show thesis by (rule that [OF w m(3) m(4) m(2) m(5)])
  qed
qed

lemma rate_cell_unique:
  assumes i: "i < length etfs" and r: "r = 8 \<or> r = 9"
    and w: "(r, Suc i, v) \<in> set (projection_writes ro etfs years ci infl dca)"
  shows "(r, Suc i, v) \<in> set (rate_column ro (i + 2) (etfs ! i))"
proof -
  let ?w = "(r, Suc i, v)"
  consider "?w \<in> set (parameter_writes years ci infl dca)" | "?w \<in> set (rate_writes ro etfs)"
    | "?w \<in> set (header_writes 12 ''Annee'' etfs)"
    | "?w \<in> set (growth_writes ''$11'' (12 + 1) years (length etfs))"
    | "?w \<in> set (header_writes (12 + 1 + years + 3) ''Annee (sans frais)'' etfs)"
    | "?w \<in> set (growth_writes ''$9'' (12 + 1 + years + 3 + 1) years (length etfs))"
    | "?w \<in> set (summary_writes ro (12 + 1 + years + 3 + 1 + years + 3) (12 + 1 + years)
            (12 + 1 + years + 3 + 1 + years) etfs)"
    using projection_writes_mem [OF w] by blast
  then show ?thesis
  proof cases
    case 1
    then show ?thesis using parameter_writes_mem(3) [OF 1] r by auto
  next
    case 2
    then obtain j where j: "j < length etfs" "?w \<in> set (rate_column ro (j + 2) (etfs ! j))"
      by (rule rate_writes_mem)
    have "j = i" using rate_column_mem(1) [OF j(2)] by simp
    then show ?thesis using j(2) by simp
  next
    case 3
    then show ?thesis using header_writes_mem(1) [OF 3] r by auto
  next
    case 4
    then show ?thesis using growth_writes_mem(1) [OF 4] r by auto
  next
    case 5
    then show ?thesis using header_writes_mem(1) [OF 5] r by auto
  next
    case 6
    then show ?thesis using growth_writes_mem(1) [OF 6] r by auto
  next
    case 7
    then show ?thesis using summary_writes_mem(1) [OF 7] r by auto
  qed
qed

lemma rate_writes_absent_as_zero: "rate_writes ro (map absent_as_zero etfs) = rate_writes ro etfs"
proof -
  have c: "rate_column ro idx (absent_as_zero row) = rate_column ro idx row" for idx row
    by (cases "CAGR row"; cases "TER row") (simp_all add: rate_column_def absent_as_zero_def)
  have "map (\<lambda>(idx, row). rate_column ro idx row) (enumerate n (map absent_as_zero etfs))
      = map (\<lambda>(idx, row). rate_column ro idx row) (enumerate n etfs)" for n
    by (induction etfs arbitrary: n) (simp_all add: c)
  then show ?thesis by (simp add: rate_writes_def)
qed

lemma header_writes_absent_as_zero:
  "header_writes h label (map absent_as_zero etfs) = header_writes h label etfs"
proof -
  have "map (\<lambda>(idx, row). (h, idx - 1, ISIN row)) (enumerate n (map absent_as_zero etfs))
      = map (\<lambda>(idx, row). (h, idx - 1, ISIN row)) (enumerate n etfs)" for n
    by (induction etfs arbitrary: n) (simp_all add: absent_as_zero_def)
  then show ?thesis by (simp add: header_writes_def)
qed

lemma summary_writes_absent_as_zero:
  "summary_writes ro sh nf ncf (map absent_as_zero etfs) = summary_writes ro sh nf ncf etfs"
proof -
  have c: "summary_row ro sh nf ncf i (absent_as_zero row) = summary_row ro sh nf ncf i row" for i row
    by (simp add: summary_row_def absent_as_zero_def)
  have "map (\<lambda>(i, row). summary_row ro sh nf ncf i row) (enumerate n (map absent_as_zero etfs))
      = map (\<lambda>(i, row). summary_row ro sh nf ncf i row) (enumerate n etfs)" for n
    by (induction etfs arbitrary: n) (simp_all add: c)
  then show ?thesis by (simp add: summary_writes_def)
qed

lemma projection_absent_as_zero:
  "write_projection_csv ro (map absent_as_zero etfs) years ci infl dca
     = write_projection_csv ro etfs years ci infl dca"
  by (simp add: write_projection_csv_def projection_writes_def Let_def
      rate_writes_absent_as_zero header_writes_absent_as_zero summary_writes_absent_as_zero)

lemma rate_cells:
  assumes n: "5 \<le> length etfs"
  shows "\<exists>m. write_projection_csv ro etfs years ci infl dca = Inr m \<and>
        (\<forall>i<length etfs.
           m ! 8 ! Suc i = ''='' @ fmt_number (Some ((case CAGR (etfs ! i) of Some c \<Rightarrow> c | None \<Rightarrow> 0) / 100)) 10
           \<and> m ! 9 ! Suc i = ''='' @ fmt_number (Some ((case TER (etfs ! i) of Some t \<Rightarrow> t | None \<Rightarrow> 0) / 100)) 10)"
proof (rule projection_ok [OF n, of ro years ci infl dca])
  let ?ws = "projection_writes ro etfs years ci infl dca"
  let ?cv = "\<lambda>i. ''='' @ fmt_number (Some ((case CAGR (etfs ! i) of Some c \<Rightarrow> c | None \<Rightarrow> 0) / 100)) 10"
  let ?tv = "\<lambda>i. ''='' @ fmt_number (Some ((case TER (etfs ! i) of Some t \<Rightarrow> t | None \<Rightarrow> 0) / 100)) 10"
  fix m
  assume m: "write_projection_csv ro etfs years ci infl dca = Inr m"
    "\<And>r c v. (r, c, v) \<in> set ?ws \<Longrightarrow> (\<forall>v'. (r, c, v') \<in> set ?ws \<longrightarrow> v' = v) \<Longrightarrow> m ! r ! c = v"
  have cell8: "m ! 8 ! Suc i = ?cv i" if i: "i < length etfs" for i
  proof (rule m(2))
    have "(8, i + 2 - 1, ?cv i) \<in> set (rate_column ro (i + 2) (etfs ! i))"
      by (rule rate_column_has(1))
    then have "(8, Suc i, ?cv i) \<in> set (rate_column ro (i + 2) (etfs ! i))" by simp
    then show "(8, Suc i, ?cv i) \<in> set ?ws"
      by (intro projection_writes_has(1) rate_writes_has [OF i])
    show "\<forall>v'. (8, Suc i, v') \<in> set ?ws \<longrightarrow> v' = ?cv i"
    proof (intro allI impI)
      fix v' assume "(8, Suc i, v') \<in> set ?ws"
      then have "(8, Suc i, v') \<in> set (rate_column ro (i + 2) (etfs ! i))"
        using rate_cell_unique [OF i] by blast
      from rate_column_mem(4) [OF this] show "v' = ?cv i" by simp
    qed
  qed
  have cell9: "m ! 9 ! Suc i = ?tv i" if i: "i < length etfs" for i
  proof (rule m(2))
    have "(9, i + 2 - 1, ?tv i) \<in> set (rate_column ro (i + 2) (etfs ! i))"
      by (rule rate_column_has(2))
    then have "(9, Suc i, ?tv i) \<in> set (rate_column ro (i + 2) (etfs ! i))" by simp
    then show "(9, Suc i, ?tv i) \<in> set ?ws"
      by (intro projection_writes_has(1) rate_writes_has [OF i])
    show "\<forall>v'. (9, Suc i, v') \<in> set ?ws \<longrightarrow> v' = ?tv i"
    proof (intro allI impI)
      fix v' assume "(9, Suc i, v') \<in> set ?ws"
      then have "(9, Suc i, v') \<in> set (rate_column ro (i + 2) (etfs ! i))"
        using rate_cell_unique [OF i] by blast
      from rate_column_mem(5) [OF this] show "v' = ?tv i" by simp
    qed
  qed
  show "\<exists>m. write_projection_csv ro etfs years ci infl dca = Inr m \<and>
        (\<forall>i<length etfs. m ! 8 ! Suc i = ?cv i \<and> m ! 9 ! Suc i = ?tv i)"
    using m(1) cell8 cell9 by blast
qed

text \<open>
  C10. In the rate block of the projection sheet (rows 9 and 10 of the sheet, one column
  per instrument), the cell of a \<open>CAGR (%)\<close> or \<open>TER (%)\<close> holds the percentage divided
  by 100, and an absent value is replaced by 0, which prints the formula \<open>=0\<close>. So
  the whole output is the same as for rows where every absent value is a measured
  zero: the sheet cannot tell them apart. The sheet exists for five instruments or
  more; for fewer the function raises.
\<close>

theorem rate_block_absent_as_zero:
  "(5 \<le> length etfs \<longrightarrow>
      (\<exists>m. write_projection_csv ro etfs years ci infl dca = Inr m \<and>
        (\<forall>i<length etfs.
           m ! 8 ! Suc i = ''='' @ fmt_number (Some ((case CAGR (etfs ! i) of Some c \<Rightarrow> c | None \<Rightarrow> 0) / 100)) 10
           \<and> m ! 9 ! Suc i = ''='' @ fmt_number (Some ((case TER (etfs ! i) of Some t \<Rightarrow> t | None \<Rightarrow> 0) / 100)) 10
           \<and> (CAGR (etfs ! i) = None \<longrightarrow> m ! 8 ! Suc i = ''=0'')
           \<and> (TER (etfs ! i) = None \<longrightarrow> m ! 9 ! Suc i = ''=0''))))
   \<and> write_projection_csv ro (map absent_as_zero etfs) years ci infl dca
       = write_projection_csv ro etfs years ci infl dca"
proof (intro conjI impI)
  assume n: "5 \<le> length etfs"
  have z: "fmt_number (Some (0 / 100)) 10 = ''0''" using fmt_number_zero [of 10] by simp
  obtain m where m: "write_projection_csv ro etfs years ci infl dca = Inr m"
    "\<forall>i<length etfs.
           m ! 8 ! Suc i = ''='' @ fmt_number (Some ((case CAGR (etfs ! i) of Some c \<Rightarrow> c | None \<Rightarrow> 0) / 100)) 10
           \<and> m ! 9 ! Suc i = ''='' @ fmt_number (Some ((case TER (etfs ! i) of Some t \<Rightarrow> t | None \<Rightarrow> 0) / 100)) 10"
    using rate_cells [OF n] by blast
  have "\<forall>i<length etfs.
           m ! 8 ! Suc i = ''='' @ fmt_number (Some ((case CAGR (etfs ! i) of Some c \<Rightarrow> c | None \<Rightarrow> 0) / 100)) 10
           \<and> m ! 9 ! Suc i = ''='' @ fmt_number (Some ((case TER (etfs ! i) of Some t \<Rightarrow> t | None \<Rightarrow> 0) / 100)) 10
           \<and> (CAGR (etfs ! i) = None \<longrightarrow> m ! 8 ! Suc i = ''=0'')
           \<and> (TER (etfs ! i) = None \<longrightarrow> m ! 9 ! Suc i = ''=0'')"
    using m(2) z by simp
  then show "\<exists>m. write_projection_csv ro etfs years ci infl dca = Inr m \<and>
        (\<forall>i<length etfs.
           m ! 8 ! Suc i = ''='' @ fmt_number (Some ((case CAGR (etfs ! i) of Some c \<Rightarrow> c | None \<Rightarrow> 0) / 100)) 10
           \<and> m ! 9 ! Suc i = ''='' @ fmt_number (Some ((case TER (etfs ! i) of Some t \<Rightarrow> t | None \<Rightarrow> 0) / 100)) 10
           \<and> (CAGR (etfs ! i) = None \<longrightarrow> m ! 8 ! Suc i = ''=0'')
           \<and> (TER (etfs ! i) = None \<longrightarrow> m ! 9 ! Suc i = ''=0''))"
    using m(1) by blast
next
  show "write_projection_csv ro (map absent_as_zero etfs) years ci infl dca
       = write_projection_csv ro etfs years ci infl dca"
    by (rule projection_absent_as_zero)
qed


theorem rate_block_absent_as_zero_witness:
  "\<exists>m. write_projection_csv (\<lambda>v. [])
          [example_row ''A'' (Some 7.5) (Some 0.2), example_row ''B'' None None,
           example_row ''C'' (Some 0) (Some 0), example_row ''D'' (Some 1) None,
           example_row ''E'' (Some (- 3.25)) (Some 0.07)] 30 10000 0.02 0 = Inr m
        \<and> m ! 8 ! 2 = ''=0'' \<and> m ! 9 ! 2 = ''=0'' \<and> m ! 8 ! 3 = ''=0'' \<and> m ! 9 ! 3 = ''=0''
        \<and> m ! 9 ! 4 = ''=0''"
proof -
  let ?etfs = "[example_row ''A'' (Some 7.5) (Some 0.2), example_row ''B'' None None,
           example_row ''C'' (Some 0) (Some 0), example_row ''D'' (Some 1) None,
           example_row ''E'' (Some (- 3.25)) (Some 0.07)]"
  have n: "5 \<le> length ?etfs" by simp
  have z: "fmt_number (Some 0) 10 = ''0''" using fmt_number_zero [of 10] by simp
  obtain m where m: "write_projection_csv (\<lambda>v. []) ?etfs 30 10000 0.02 0 = Inr m"
    and c: "\<forall>i<length ?etfs.
           m ! 8 ! Suc i = ''='' @ fmt_number (Some ((case CAGR (?etfs ! i) of Some c \<Rightarrow> c | None \<Rightarrow> 0) / 100)) 10
           \<and> m ! 9 ! Suc i = ''='' @ fmt_number (Some ((case TER (?etfs ! i) of Some t \<Rightarrow> t | None \<Rightarrow> 0) / 100)) 10
           \<and> (CAGR (?etfs ! i) = None \<longrightarrow> m ! 8 ! Suc i = ''=0'')
           \<and> (TER (?etfs ! i) = None \<longrightarrow> m ! 9 ! Suc i = ''=0'')"
    using rate_block_absent_as_zero [of ?etfs "\<lambda>v. []" 30 10000 "0.02" 0] n by blast
  have "m ! 8 ! 2 = ''=0'' \<and> m ! 9 ! 2 = ''=0''"
    using c [rule_format, of 1] by (simp add: example_row_def numeral_2_eq_2 z)
  moreover have "m ! 8 ! 3 = ''=0'' \<and> m ! 9 ! 3 = ''=0''"
    using c [rule_format, of 2] by (simp add: example_row_def z)
  moreover have "m ! 9 ! 4 = ''=0''"
    using c [rule_format, of 3] by (simp add: example_row_def z)
  ultimately show ?thesis using m by blast
qed

text \<open>
  C8. For an empty list of instruments and any parameters, \<open>write_projection_csv\<close>
  writes exactly one row holding the single cell \<open>Aucun ETF exploitable\<close>, which is no
  formula (it does not start with \<open>=\<close>), and raises nothing.
\<close>

theorem write_projection_csv_empty:
  "write_projection_csv repr_other [] years capital_initial inflation dca_mensuel
     = Inr [[''Aucun ETF exploitable'']]
   \<and> \<not> starts_with ''='' ''Aucun ETF exploitable''"
  by (simp add: write_projection_csv_def)

theorem write_projection_csv_empty_witness:
  "write_projection_csv (\<lambda>v. []) [] 30 10000 0.02 0 = Inr [[''Aucun ETF exploitable'']]"
  using write_projection_csv_empty [of "\<lambda>v. []" 30 10000 "0.02" 0] by simp

text \<open>
  C3 fails on the code for one to four instruments: a row of the matrix has one cell
  per instrument and one more, the header of the summary block writes into columns 0
  to 5, and \<open>set_cell\<close> raises \<open>IndexError\<close> before any file is written. No growth block
  is produced then.
\<close>

theorem write_projection_csv_raises:
  "rows \<noteq> [] \<and> length rows < 5 \<longrightarrow>
     write_projection_csv repr_other rows years capital_initial inflation dca_mensuel = Inl IndexError"
  using projection_raises by blast

theorem write_projection_csv_raises_witness:
  "write_projection_csv (\<lambda>v. []) [example_row ''IE00B4L5Y983'' (Some 7.5) (Some 0.2)] 30 10000 0.02 0
     = Inl IndexError"
  using write_projection_csv_raises
    [of "[example_row ''IE00B4L5Y983'' (Some 7.5) (Some 0.2)]" "\<lambda>v. []" 30 10000 "0.02" 0]
  by simp

subsection \<open>Rows of the overview\<close>

lemma parse_value_text:
  assumes "text_or_absent v"
  shows "\<exists>r. parse_percent_value v = Inr r" "\<exists>r. parse_aum_meur_value v = Inr r"
  using assms
  by (cases v; simp add: text_or_absent_def parse_percent_value_def parse_aum_meur_value_def)+

lemma float_raises_bound:
  assumes "is_number v \<longrightarrow> \<bar>as_float v\<bar> \<le> 10 ^ 6"
  shows "\<not> float_raises v"
proof (cases v)
  case (PInt i)
  then have "\<bar>real_of_int i\<bar> \<le> 10 ^ 6" using assms by simp
  then have "\<bar>i\<bar> \<le> 10 ^ 6" using of_int_le_iff [of "\<bar>i\<bar>" "10 ^ 6", where ?'a = real] by simp
  moreover have "(10::int) ^ 6 < 2 ^ 1024 - 2 ^ 970" by simp
  ultimately show ?thesis using PInt by (simp add: float_raises_def)
qed (simp_all add: float_raises_def)

lemma ordinary_row_return:
  assumes "ordinary_row (PDict d)"
  shows "\<not> float_raises (py_get d ''return_pct'')"
  using assms by (intro float_raises_bound) (simp add: ordinary_row_def)

lemma ordinary_rows_no_float_raise:
  assumes "list_all ordinary_row vals"
  shows "\<not> list_ex (\<lambda>row. case row of PDict d \<Rightarrow> float_raises (py_get d ''return_pct'') | _ \<Rightarrow> False) vals"
    "\<not> list_ex (\<lambda>row. case row of
                          PDict d \<Rightarrow>
                            (case py_int_str (py_get d ''year'') of
                               None \<Rightarrow> False
                             | Some year \<Rightarrow>
                                 is_int (py_get d ''month_index'')
                                 \<and> float_raises (py_get d ''return_pct''))
                        | _ \<Rightarrow> False) vals"
  using assms
  by (induction vals) (auto simp: ordinary_row_return split: pyval.splits option.splits)

lemma ordinary_returns:
  assumes "list_all ordinary_row vals"
  shows "\<forall>r\<in>set (collect_returns vals). \<bar>r\<bar> \<le> 10 ^ 6"
  using assms
  by (induction vals) (auto simp: Let_def ordinary_row_def split: pyval.splits)

lemma prod_bound:
  assumes "\<forall>r\<in>set rs. \<bar>r\<bar> \<le> (10::real) ^ 6"
  shows "\<bar>prod_list (map (\<lambda>r. 1 + r / 100) rs)\<bar> \<le> 10001 ^ length rs"
  using assms
proof (induction rs)
  case Nil
  then show ?case by simp
next
  case (Cons r rs)
  have "\<bar>r\<bar> \<le> 10 ^ 6" using Cons.prems by simp
  then have a: "\<bar>1 + r / 100\<bar> \<le> 10001" by (simp add: abs_le_iff)
  have b: "\<bar>prod_list (map (\<lambda>r. 1 + r / 100) rs)\<bar> \<le> 10001 ^ length rs"
    using Cons by simp
  have "\<bar>(1 + r / 100) * prod_list (map (\<lambda>r. 1 + r / 100) rs)\<bar>
        \<le> 10001 * 10001 ^ length rs"
    unfolding abs_mult using a b by (intro mult_mono) simp_all
  then show ?case by simp
qed

lemma no_pow_overflow:
  assumes n: "0 < n" and c: "0 < c" "c \<le> (10001::real) ^ n"
  shows "c powr (12 / real n) < 2 ^ 1024"
proof -
  have "c powr (12 / real n) \<le> (10001 ^ n) powr (12 / real n)"
    using c by (intro powr_mono2) simp_all
  also have "(10001 ^ n) powr (12 / real n) = (10001 powr real n) powr (12 / real n)"
    by (simp add: powr_realpow)
  also have "\<dots> = 10001 powr 12" using n by (simp add: powr_powr)
  also have "\<dots> = 10001 ^ 12" by simp
  also have "\<dots> < (2::real) ^ 1024" by simp
  finally show ?thesis .
qed

lemma ordinary_cagr_no_raise:
  assumes "case heatmap of
             PDict h \<Rightarrow> (case py_get h ''values'' of PList vals \<Rightarrow> list_all ordinary_row vals | _ \<Rightarrow> True)
           | _ \<Rightarrow> True"
  shows "\<not> compute_cagr_from_heatmap_raises heatmap"
proof (cases heatmap)
  case (PDict h)
  show ?thesis
  proof (cases "py_get h ''values''")
    case (PList vals)
    then have o: "list_all ordinary_row vals" using assms PDict by simp
    let ?rs = "collect_returns vals"
    have "\<not> (?rs \<noteq> [] \<and> 0 < compound ?rs \<and> compound ?rs < 2 ^ 1024
              \<and> 2 ^ 1024 \<le> compound ?rs powr (12 / real (length ?rs)))"
    proof
      assume a: "?rs \<noteq> [] \<and> 0 < compound ?rs \<and> compound ?rs < 2 ^ 1024
              \<and> 2 ^ 1024 \<le> compound ?rs powr (12 / real (length ?rs))"
      have "\<bar>compound ?rs\<bar> \<le> 10001 ^ length ?rs"
        using prod_bound [OF ordinary_returns [OF o]] by (simp add: compound_prod)
      then have "compound ?rs \<le> 10001 ^ length ?rs" by simp
      then have "compound ?rs powr (12 / real (length ?rs)) < 2 ^ 1024"
        using a by (intro no_pow_overflow) simp_all
      then show False using a by simp
    qed
    then show ?thesis
      using PDict PList ordinary_rows_no_float_raise(1) [OF o]
      by (simp add: compute_cagr_from_heatmap_raises_def Let_def)
  qed (simp_all add: compute_cagr_from_heatmap_raises_def PDict)
qed (simp_all add: compute_cagr_from_heatmap_raises_def)

lemma ordinary_yearly_no_raise:
  assumes "case heatmap of
             PDict h \<Rightarrow> (case py_get h ''values'' of PList vals \<Rightarrow> list_all ordinary_row vals | _ \<Rightarrow> True)
           | _ \<Rightarrow> True"
  shows "\<not> compute_yearly_returns_raises heatmap"
proof (cases heatmap)
  case (PDict h)
  show ?thesis
  proof (cases "py_get h ''values''")
    case (PList vals)
    then have o: "list_all ordinary_row vals" using assms PDict by simp
    show ?thesis
      using PDict PList ordinary_rows_no_float_raise(2) [OF o]
      by (simp add: compute_yearly_returns_raises_def)
  qed (simp_all add: compute_yearly_returns_raises_def PDict)
qed (simp_all add: compute_yearly_returns_raises_def)

lemma ordinary_launch_points:
  assumes "list_all ordinary_row vals"
  shows "\<forall>p\<in>set (launch_points vals). - (2 ^ 31) \<le> fst p \<and> fst p \<le> 2 ^ 31 - 1"
  using assms
  by (induction vals) (auto simp: Let_def ordinary_row_def split: pyval.splits option.splits)

lemma ordinary_infer_no_raise:
  assumes "case heatmap of
             PDict h \<Rightarrow> (case py_get h ''values'' of PList vals \<Rightarrow> list_all ordinary_row vals | _ \<Rightarrow> True)
           | _ \<Rightarrow> True"
  shows "\<exists>launch. infer_launch_date_from_heatmap heatmap = Inr launch"
proof (cases heatmap)
  case (PDict h)
  show ?thesis
  proof (cases "py_get h ''values''")
    case (PList vals)
    then have o: "list_all ordinary_row vals" using assms PDict by simp
    show ?thesis
    proof (cases "launch_points vals = []")
      case True
      then show ?thesis using PDict PList by (simp add: infer_launch_date_from_heatmap_def)
    next
      case False
      then have "sort (launch_points vals) \<noteq> []" by (simp add: sort_key_Nil_iff)
      then have "hd (sort (launch_points vals)) \<in> set (sort (launch_points vals))"
        by (rule hd_in_set)
      then have "hd (sort (launch_points vals)) \<in> set (launch_points vals)" by simp
      then have "- (2 ^ 31) \<le> fst (hd (sort (launch_points vals)))
          \<and> fst (hd (sort (launch_points vals))) \<le> 2 ^ 31 - 1"
        using ordinary_launch_points [OF o] by blast
      then show ?thesis using PDict PList False
        by (simp add: infer_launch_date_from_heatmap_def Let_def)
    qed
  qed (simp_all add: infer_launch_date_from_heatmap_def PDict)
qed (simp_all add: infer_launch_date_from_heatmap_def)

lemma build_row_ok:
  assumes "facts_are_text (PDict d)" "ordinary_numbers (PDict d)"
  shows "\<exists>row. build_row today ro d isin = Inr row \<and> ISIN row = isin
           \<and> Nom_ETF row = or_blank (py_get d ''nom'')"
proof -
  let ?details = "(case py_get d ''donnees'' of PDict x \<Rightarrow> x | _ \<Rightarrow> [])"
  let ?heatmap = "py_get d ''heatmap_mensuelle''"
  from assms(1) have t: "text_or_absent (py_get ?details ''frais_totaux_sur_encours_ter'')"
    "text_or_absent (py_get ?details ''volatilite_sur_1_an'')"
    "text_or_absent (py_get ?details ''taille_du_fonds'')"
    by (simp_all add: facts_are_text_def Let_def)
  obtain a b c where p: "parse_percent_value (py_get ?details ''frais_totaux_sur_encours_ter'') = Inr a"
    "parse_percent_value (py_get ?details ''volatilite_sur_1_an'') = Inr b"
    "parse_aum_meur_value (py_get ?details ''taille_du_fonds'') = Inr c"
    using parse_value_text(1) [OF t(1)] parse_value_text(1) [OF t(2)] parse_value_text(2) [OF t(3)]
    by blast
  have h: "case ?heatmap of
             PDict h \<Rightarrow> (case py_get h ''values'' of PList vals \<Rightarrow> list_all ordinary_row vals | _ \<Rightarrow> True)
           | _ \<Rightarrow> True"
    using assms(2) by (simp add: ordinary_numbers_def)
  have s: "\<not> float_raises (py_get d ''cagr_depuis_creation_pct'')"
  proof (cases "py_get d ''cagr_depuis_creation_pct''")
    case (PInt i)
    then have "\<bar>i\<bar> \<le> 10 ^ 6" using assms(2) by (simp add: ordinary_numbers_def)
    then have "is_number (PInt i) \<longrightarrow> \<bar>as_float (PInt i)\<bar> \<le> 10 ^ 6" by simp
    then show ?thesis using PInt float_raises_bound by metis
  qed (simp_all add: float_raises_def)
  have r: "\<not> resolve_cagr_raises d ?heatmap"
    using s ordinary_cagr_no_raise [OF h] by (simp add: resolve_cagr_raises_def Let_def)
  have "\<exists>launch. (case extract_launch_date_from_description (str_or_none (py_get d ''description'')) of
                                  Some x \<Rightarrow> Inr (Some x)
                                | None \<Rightarrow> infer_launch_date_from_heatmap ?heatmap) = Inr launch"
    using ordinary_infer_no_raise [OF h]
    by (cases "extract_launch_date_from_description (str_or_none (py_get d ''description''))") simp_all
  then obtain launch where l: "(case extract_launch_date_from_description (str_or_none (py_get d ''description'')) of
                                  Some x \<Rightarrow> Inr (Some x)
                                | None \<Rightarrow> infer_launch_date_from_heatmap ?heatmap) = Inr launch"
    by blast
  show ?thesis
    using p r l ordinary_yearly_no_raise [OF h] by (simp add: build_row_def Let_def)
qed


text \<open>
  C9 (amended). \<open>build_overview_rows\<close> skips a document that is not a JSON object or
  whose ISIN is empty, and every other document contributes exactly one row, in the
  order of the collection, whatever the documents around it are; a document with no
  name is not skipped: its row has an empty name. This holds for collections in
  which no document raises: the fee, volatility and size facts are text or absent,
  and the numbers are ordinary (a stored rate that is an \<open>int\<close> and the returns of the
  grid are at most \<open>10^6\<close> in magnitude, the years of the grid fit a C \<open>int\<close>).
\<close>

theorem build_overview_rows_isolation:
  "list_all facts_are_text docs \<and> list_all ordinary_numbers docs \<longrightarrow>
     (\<exists>rows. build_overview_rows today repr_other docs = Inr rows
        \<and> map ISIN rows = map (\<lambda>data. case data of PDict d \<Rightarrow> doc_isin repr_other d | _ \<Rightarrow> [])
                              (filter (accepted repr_other) docs)
        \<and> map Nom_ETF rows = map doc_name (filter (accepted repr_other) docs))"
proof (induction docs)
  case Nil
  then show ?case by simp
next
  case (Cons data rest)
  show ?case
  proof
    assume a: "list_all facts_are_text (data # rest) \<and> list_all ordinary_numbers (data # rest)"
    then obtain rows where rows: "build_overview_rows today repr_other rest = Inr rows"
      "map ISIN rows = map (\<lambda>data. case data of PDict d \<Rightarrow> doc_isin repr_other d | _ \<Rightarrow> [])
                              (filter (accepted repr_other) rest)"
      "map Nom_ETF rows = map doc_name (filter (accepted repr_other) rest)"
      using Cons.IH by auto
    show "\<exists>rows. build_overview_rows today repr_other (data # rest) = Inr rows
        \<and> map ISIN rows = map (\<lambda>data. case data of PDict d \<Rightarrow> doc_isin repr_other d | _ \<Rightarrow> [])
                              (filter (accepted repr_other) (data # rest))
        \<and> map Nom_ETF rows = map doc_name (filter (accepted repr_other) (data # rest))"
    proof (cases data)
      case (PDict d)
      show ?thesis
      proof (cases "doc_isin repr_other d = []")
        case True
        then show ?thesis using rows PDict by (simp add: accepted_def)
      next
        case False
        have "facts_are_text (PDict d)" "ordinary_numbers (PDict d)" using a PDict by simp_all
        then obtain row where row: "build_row today repr_other d (doc_isin repr_other d) = Inr row"
          "ISIN row = doc_isin repr_other d" "Nom_ETF row = or_blank (py_get d ''nom'')"
          using build_row_ok by blast
        then show ?thesis using rows PDict False by (simp add: accepted_def doc_name_def)
      qed
    qed (use rows in \<open>simp_all add: accepted_def\<close>)
  qed
qed

theorem build_overview_rows_isolation_witness:
  "\<exists>rows. build_overview_rows (Date 2026 11 4) (\<lambda>v. [])
       [PDict [(''isin'', PStr ''ie00b4l5y983'')],
        PStr ''not a document'',
        PDict [(''isin'', PStr ''  ''), (''nom'', PStr ''No ISIN'')],
        PDict [(''isin'', PStr ''LU1681043599''), (''nom'', PStr ''Amundi MSCI World''),
               (''description'', PStr ''Le fonds a ete lance le 18 avril 2018.''),
               (''heatmap_mensuelle'', PDict [(''values'', PList
                  [PDict [(''year'', PStr ''2021''), (''month_index'', PInt 1), (''return_pct'', PFloat 10)],
                   PDict [(''year'', PStr ''2020''), (''month_index'', PInt 12), (''return_pct'', PInt (- 1))]])]),
               (''donnees'', PDict [(''frais_totaux_sur_encours_ter'', PStr ''0,38% p.a.'')])]] = Inr rows
     \<and> map ISIN rows = [''IE00B4L5Y983'', ''LU1681043599'']
     \<and> map Nom_ETF rows = [PStr [], PStr ''Amundi MSCI World'']"
proof -
  let ?docs = "[PDict [(''isin'', PStr ''ie00b4l5y983'')],
        PStr ''not a document'',
        PDict [(''isin'', PStr ''  ''), (''nom'', PStr ''No ISIN'')],
        PDict [(''isin'', PStr ''LU1681043599''), (''nom'', PStr ''Amundi MSCI World''),
               (''description'', PStr ''Le fonds a ete lance le 18 avril 2018.''),
               (''heatmap_mensuelle'', PDict [(''values'', PList
                  [PDict [(''year'', PStr ''2021''), (''month_index'', PInt 1), (''return_pct'', PFloat 10)],
                   PDict [(''year'', PStr ''2020''), (''month_index'', PInt 12), (''return_pct'', PInt (- 1))]])]),
               (''donnees'', PDict [(''frais_totaux_sur_encours_ter'', PStr ''0,38% p.a.'')])]]"
  have t: "list_all facts_are_text ?docs" by code_simp
  have y: "py_int_str (PStr ''2021'') = Some 2021" "py_int_str (PStr ''2020'') = Some 2020"
    by code_simp+
  have o: "list_all ordinary_numbers ?docs"
    using y by (simp add: ordinary_numbers_def ordinary_row_def py_get_def)
  have i: "map (\<lambda>data. case data of PDict d \<Rightarrow> doc_isin (\<lambda>v. []) d | _ \<Rightarrow> [])
             (filter (accepted (\<lambda>v. [])) ?docs) = [''IE00B4L5Y983'', ''LU1681043599'']"
    by code_simp
  have n: "map doc_name (filter (accepted (\<lambda>v. [])) ?docs) = [PStr [], PStr ''Amundi MSCI World'']"
    by code_simp
  show ?thesis
    using build_overview_rows_isolation [of ?docs "Date 2026 11 4" "\<lambda>v. []"] t o
    by (simp only: i n)
qed

text \<open>
  A document with an ISIN and no name is not rejected: it contributes a row whose
  name is empty.
\<close>

theorem build_overview_rows_isolation_counterexample:
  "build_overview_rows (Date 2026 11 4) (\<lambda>v. []) [PDict [(''isin'', PStr ''ie00b4l5y983'')]]
     = Inr [\<lparr>ISIN = ''IE00B4L5Y983'', Nom_ETF = PStr [], Axe_investissement = PStr [],
             Categorie = ''Satellite'', TER = None, AUM = None, Date_lancement = None,
             Age_du_fonds = None, Volatilite = None, CAGR = None,
             Nb_annees_negatives = None, Pire_annee = None\<rparr>]"
  by code_simp


text \<open>
  One document can end the run for the whole collection, since \<open>build_overview_rows\<close>
  catches no exception: a fee that is a JSON number and not a text raises
  \<open>AttributeError\<close> in \<open>clean_spaces\<close>; a grid whose earliest year does not fit a C \<open>int\<close>
  raises \<open>OverflowError\<close> in \<open>dt.date\<close> when the description gives no launch date; a
  return or a stored rate that is an integer out of the range of a float raises
  \<open>OverflowError\<close> in \<open>float\<close>.
\<close>

lemma build_overview_rows_aborts:
  "build_overview_rows (Date 2026 11 4) (\<lambda>v. [])
     [PDict [(''isin'', PStr ''IE00B4L5Y983''),
             (''donnees'', PDict [(''frais_totaux_sur_encours_ter'', PFloat 0.2)])],
      PDict [(''isin'', PStr ''LU1681043599''), (''nom'', PStr ''Amundi MSCI World'')]]
     = Inl AttributeError"
  "build_overview_rows (Date 2026 11 4) (\<lambda>v. [])
     [PDict [(''isin'', PStr ''IE00B4L5Y983''), (''nom'', PStr ''Core MSCI World''),
             (''heatmap_mensuelle'', PDict [(''values'', PList
                [PDict [(''year'', PInt 99999999999), (''month_index'', PInt 1)]])])],
      PDict [(''isin'', PStr ''LU1681043599''), (''nom'', PStr ''Amundi MSCI World'')]]
     = Inl OverflowError"
  "build_overview_rows (Date 2026 11 4) (\<lambda>v. [])
     [PDict [(''isin'', PStr ''IE00B4L5Y983''), (''nom'', PStr ''Core MSCI World''),
             (''heatmap_mensuelle'', PDict [(''values'', PList
                [PDict [(''year'', PStr ''2020''), (''month_index'', PInt 1),
                        (''return_pct'', PInt (10 ^ 400))]])])],
      PDict [(''isin'', PStr ''LU1681043599''), (''nom'', PStr ''Amundi MSCI World'')]]
     = Inl OverflowError"
  "build_overview_rows (Date 2026 11 4) (\<lambda>v. [])
     [PDict [(''isin'', PStr ''IE00B4L5Y983''), (''nom'', PStr ''Core MSCI World''),
             (''cagr_depuis_creation_pct'', PInt (10 ^ 400))],
      PDict [(''isin'', PStr ''LU1681043599''), (''nom'', PStr ''Amundi MSCI World'')]]
     = Inl OverflowError"
  by code_simp+

text \<open>
  The same for a grid row that has a return, where the rate is computed first, and a
  single return large enough for \<open>math.pow\<close> to leave the range of a float.
\<close>

lemma build_overview_rows_aborts_year:
  "build_overview_rows (Date 2026 11 4) (\<lambda>v. [])
     [PDict [(''isin'', PStr ''IE00B4L5Y983''), (''nom'', PStr ''Core MSCI World''),
             (''heatmap_mensuelle'', PDict [(''values'', PList
                [PDict [(''year'', PInt 99999999999), (''month_index'', PInt 1),
                        (''return_pct'', PFloat 2)]])])],
      PDict [(''isin'', PStr ''LU1681043599''), (''nom'', PStr ''Amundi MSCI World'')]]
     = Inl OverflowError"
proof -
  let ?hm = "PDict [(''values'', PList
                [PDict [(''year'', PInt 99999999999), (''month_index'', PInt 1),
                        (''return_pct'', PFloat 2)]])]"
  let ?d = "[(''isin'', PStr ''IE00B4L5Y983''), (''nom'', PStr ''Core MSCI World''),
             (''heatmap_mensuelle'', ?hm)]"
  have g: "py_get ?d ''heatmap_mensuelle'' = ?hm" "py_get ?d ''donnees'' = PNone"
    "py_get ?d ''cagr_depuis_creation_pct'' = PNone" "py_get ?d ''description'' = PNone"
    by (simp_all add: py_get_def)
  have c: "\<not> compute_cagr_from_heatmap_raises ?hm"
    by (simp add: compute_cagr_from_heatmap_raises_def py_get_def float_raises_def compound_def power_divide)
  have i: "doc_isin (\<lambda>v. []) ?d = ''IE00B4L5Y983''" by code_simp
  have p: "parse_percent_value (py_get [] k) = Inr None" "parse_aum_meur_value (py_get [] k) = Inr None" for k
    by (simp_all add: py_get_def parse_percent_value_def parse_aum_meur_value_def)
  have l: "infer_launch_date_from_heatmap ?hm = Inl OverflowError" by code_simp
  have e: "extract_launch_date_from_description (str_or_none PNone) = None" by code_simp
  have "build_row (Date 2026 11 4) (\<lambda>v. []) ?d ''IE00B4L5Y983'' = Inl OverflowError"
    using c by (simp add: build_row_def Let_def g p l e resolve_cagr_raises_def)
  then show ?thesis using i by simp
qed

lemma compute_cagr_from_heatmap_raises_pow:
  "compute_cagr_from_heatmap_raises
     (PDict [(''values'', PList [PDict [(''return_pct'', PFloat (10 ^ 30))]])])"
  by (simp add: compute_cagr_from_heatmap_raises_def py_get_def float_raises_def compound_def)

end
